theory Spec2Isabelle
  imports Main
begin

section \<open>Agent: the offline buffer (src/agent.py)\<close>

text \<open>
  The offline buffer is the text file \<^verbatim>\<open>offline_events.jsonl\<close>. Its state is
  \<open>None\<close> while the path does not exist and \<open>Some text\<close> otherwise, where \<open>text\<close> is
  what Python's text layer reads from the file (newlines already translated to the
  single character 0x0A). Strings are byte strings: a Python \<^verbatim>\<open>str\<close> is read as its
  UTF-8 encoding, which concatenation and emptiness respect. File operations on an existing
  file are taken to succeed and its bytes to decode; the \<^verbatim>\<open>except\<close> branches of the
  source that only guard against I/O and decoding faults are therefore not reachable in the
  model, while the one that catches \<^verbatim>\<open>json.loads\<close> is a branch of \<open>load_loop\<close>.
\<close>

definition newline :: char where
  "newline = CHR 0x0A"

text \<open>
  Iterating a text file and \<^verbatim>\<open>readlines()\<close> both yield the lines with their
  terminating newline; only the last line may lack one.
\<close>

fun py_lines :: "string \<Rightarrow> string list" where
  "py_lines [] = []"
| "py_lines (c # cs) =
     (if c = newline then [c] # py_lines cs
      else (case py_lines cs of
              [] \<Rightarrow> [[c]]
            | l # ls \<Rightarrow> (c # l) # ls))"

text \<open>
  \<^verbatim>\<open>line.strip()\<close> removes the characters for which \<^verbatim>\<open>str.isspace\<close> holds at both ends
  of the line. These are the code points 0x09..0x0D, 0x1C..0x1F, 0x20, 0x85, 0xA0, 0x1680,
  0x2000..0x200A, 0x2028, 0x2029, 0x202F, 0x205F and 0x3000. On the UTF-8 encoding they are the
  single bytes of \<open>is_space\<close>, the two-byte sequences of \<open>is_space2\<close> (C2 85, C2 A0) and the
  three-byte sequences of \<open>is_space3\<close> (E1 9A 80; E2 80 80..8A, A8, A9, AF; E2 81 9F;
  E3 80 80). In UTF-8 a lead byte is never a continuation byte, so a text starts or ends with
  such a character exactly when its bytes start or end with such a sequence.
  \<open>py_lstrip\<close> strips from the front, \<open>rstrip_rev\<close> does the same on the reversed bytes.
\<close>

definition is_space :: "char \<Rightarrow> bool" where
  "is_space c = (of_char c \<in> {9, 10, 11, 12, 13, 28, 29, 30, 31, 32 :: nat})"

definition is_space2 :: "char \<Rightarrow> char \<Rightarrow> bool" where
  "is_space2 a b = (a = CHR 0xC2 \<and> (b = CHR 0x85 \<or> b = CHR 0xA0))"

definition is_space3 :: "char \<Rightarrow> char \<Rightarrow> char \<Rightarrow> bool" where
  "is_space3 a b c =
     ((a = CHR 0xE1 \<and> b = CHR 0x9A \<and> c = CHR 0x80)
      \<or> (a = CHR 0xE2 \<and> b = CHR 0x80
          \<and> (((0x80 :: nat) \<le> of_char c \<and> (of_char c :: nat) \<le> 0x8A)
               \<or> c = CHR 0xA8 \<or> c = CHR 0xA9 \<or> c = CHR 0xAF))
      \<or> (a = CHR 0xE2 \<and> b = CHR 0x81 \<and> c = CHR 0x9F)
      \<or> (a = CHR 0xE3 \<and> b = CHR 0x80 \<and> c = CHR 0x80))"

fun py_lstrip :: "string \<Rightarrow> string" where
  "py_lstrip (a # b # c # s) =
     (if is_space a then py_lstrip (b # c # s)
      else if is_space2 a b then py_lstrip (c # s)
      else if is_space3 a b c then py_lstrip s
      else a # b # c # s)"
| "py_lstrip [a, b] =
     (if is_space a then py_lstrip [b]
      else if is_space2 a b then []
      else [a, b])"
| "py_lstrip [a] = (if is_space a then [] else [a])"
| "py_lstrip [] = []"

fun rstrip_rev :: "string \<Rightarrow> string" where
  "rstrip_rev (c # b # a # s) =
     (if is_space c then rstrip_rev (b # a # s)
      else if is_space2 b c then rstrip_rev (a # s)
      else if is_space3 a b c then rstrip_rev s
      else c # b # a # s)"
| "rstrip_rev [c, b] =
     (if is_space c then rstrip_rev [b]
      else if is_space2 b c then []
      else [c, b])"
| "rstrip_rev [c] = (if is_space c then [] else [c])"
| "rstrip_rev [] = []"

definition py_strip :: "string \<Rightarrow> string" where
  "py_strip s = rev (rstrip_rev (rev (py_lstrip s)))"

text \<open>
  \<^verbatim>\<open>_persist_offline(events)\<close>: open in append mode (which creates the file) and write
  one line \<^verbatim>\<open>json.dumps(e) + "\n"\<close> per event. \<open>dumps\<close> stands for
  \<^verbatim>\<open>json.dumps(_, ensure_ascii=False)\<close>, a parameter of the model.
\<close>

definition persist_offline :: "('ev \<Rightarrow> string) \<Rightarrow> 'ev list \<Rightarrow> string option \<Rightarrow> string option" where
  "persist_offline dumps events file =
     Some ((case file of None \<Rightarrow> [] | Some text \<Rightarrow> text)
           @ concat (map (\<lambda>e. dumps e @ [newline]) events))"

text \<open>
  \<^verbatim>\<open>_load_offline(max_lines)\<close>. \<open>loads\<close> stands for \<^verbatim>\<open>json.loads\<close>: \<open>None\<close> when it
  raises. The loop carries the index \<open>i\<close> of \<^verbatim>\<open>enumerate\<close> and the list \<open>events\<close>
  built so far; its result is \<open>None\<close> when \<^verbatim>\<open>json.loads\<close> raised, which the
  \<^verbatim>\<open>except Exception: return []\<close> around the whole loop turns into the empty list.
\<close>

fun load_loop :: "(string \<Rightarrow> 'ev option) \<Rightarrow> int \<Rightarrow> int \<Rightarrow> string list \<Rightarrow> 'ev list \<Rightarrow> 'ev list option" where
  "load_loop loads max_lines i [] events = Some events"
| "load_loop loads max_lines i (line # rest) events =
     (if i \<ge> max_lines then Some events
      else let line' = py_strip line in
        if line' = [] then load_loop loads max_lines (i + 1) rest events
        else (case loads line' of
                None \<Rightarrow> None
              | Some e \<Rightarrow> load_loop loads max_lines (i + 1) rest (events @ [e])))"

definition load_offline :: "(string \<Rightarrow> 'ev option) \<Rightarrow> int \<Rightarrow> string option \<Rightarrow> 'ev list" where
  "load_offline loads max_lines file =
     (case file of
        None \<Rightarrow> []
      | Some text \<Rightarrow>
          (case load_loop loads max_lines 0 (py_lines text) [] of
             None \<Rightarrow> []
           | Some events \<Rightarrow> events))"

text \<open>
  \<^verbatim>\<open>_truncate_offline(consumed)\<close>: nothing happens for \<^verbatim>\<open>consumed <= 0\<close> or a missing
  file; otherwise the file is rewritten with \<^verbatim>\<open>lines[consumed:]\<close>.
\<close>

definition truncate_offline :: "int \<Rightarrow> string option \<Rightarrow> string option" where
  "truncate_offline consumed file =
     (if consumed \<le> 0 then file
      else (case file of
              None \<Rightarrow> None
            | Some text \<Rightarrow> Some (concat (drop (nat consumed) (py_lines text)))))"

section \<open>Agent: command verification and the sync cycle (src/agent.py)\<close>

text \<open>
  A received command is a JSON object. Of a field value the agent observes three things: whether
  it is a string (and which), its truth value, and what an f-string prints for it. So a value
  is \<^verbatim>\<open>null\<close>, a string, or some other value (a number, a boolean, a list, an object)
  given by its truth value and its printed form. \<open>dict_get\<close> is \<^verbatim>\<open>cmd.get(key)\<close>
  (\<^verbatim>\<open>None\<close> for a missing key), \<open>truthy\<close> is Python's truth value and \<open>py_str\<close> is what
  an f-string prints.
\<close>

datatype jval = JNull | JStr string | JOther bool string

type_synonym cmd_json = "string \<rightharpoonup> jval"

definition dict_get :: "cmd_json \<Rightarrow> string \<Rightarrow> jval" where
  "dict_get d k = (case d k of None \<Rightarrow> JNull | Some v \<Rightarrow> v)"

fun truthy :: "jval \<Rightarrow> bool" where
  "truthy JNull = False"
| "truthy (JStr s) = (s \<noteq> [])"
| "truthy (JOther t s) = t"

fun py_str :: "jval \<Rightarrow> string" where
  "py_str JNull = ''None''"
| "py_str (JStr s) = s"
| "py_str (JOther t s) = s"

record ('ev, 'p) agent =
  agent_id :: string
  command_secret :: string
  event_queue :: "'ev list"
  offline_file :: "string option"
  policy :: 'p

text \<open>
  \<^verbatim>\<open>_verify_command(cmd)\<close>. \<open>hmac_hex key msg\<close> stands for
  \<^verbatim>\<open>hmac.new(key, msg, hashlib.sha256).hexdigest()\<close>, a parameter of the model.
  \<^verbatim>\<open>hmac.compare_digest\<close> is equality on ASCII strings and raises on anything else, a
  signature that is no string included, which the \<^verbatim>\<open>except\<close> turns into \<^verbatim>\<open>False\<close>; a
  hex digest is ASCII, so a string that makes it raise is also different from the digest.
\<close>

definition verify_command ::
  "(string \<Rightarrow> string \<Rightarrow> string) \<Rightarrow> ('ev, 'p) agent \<Rightarrow> cmd_json \<Rightarrow> bool" where
  "verify_command hmac_hex ag cmd =
     (let cid = dict_get cmd ''id'';
          act = dict_get cmd ''action'';
          expires = dict_get cmd ''expiresAt'';
          sig = dict_get cmd ''signature''
      in if \<not> (truthy cid \<and> truthy act \<and> truthy expires \<and> truthy sig) then False
         else let msg = py_str cid @ ''|'' @ agent_id ag @ ''|'' @ py_str act @ ''|'' @ py_str expires;
                  expected = hmac_hex (command_secret ag) msg
              in (case sig of JStr s \<Rightarrow> expected = s | JNull \<Rightarrow> False | JOther t s \<Rightarrow> False))"

text \<open>\<^verbatim>\<open>log_event\<close> appends the event it builds to the in-memory queue.\<close>

definition log_event :: "'ev \<Rightarrow> ('ev, 'p) agent \<Rightarrow> ('ev, 'p) agent" where
  "log_event evt ag = ag\<lparr>event_queue := event_queue ag @ [evt]\<rparr>"

text \<open>
  What the network and the operating system do during one iteration of \<^verbatim>\<open>sync_loop\<close>:
  whether the telemetry POST raises, the HTTP status of its response when it returns (which
  the source never reads), what \<^verbatim>\<open>r.json().get("policy", {})\<close> gives
  (\<open>None\<close>: it raises), what the command poll gives (\<open>None\<close>: it raises), and for the
  command at each position of the polled list whether \<^verbatim>\<open>subprocess.run\<close> and the ack
  POST raise. The polled list is a list of JSON objects; an element of another kind makes
  \<^verbatim>\<open>cmd.get\<close> raise inside the verifier, which then answers \<^verbatim>\<open>False\<close> as it does for
  the empty object.
\<close>

record 'p cycle_env =
  post_raises :: bool
  post_status :: nat
  policy_reply :: "'p option"
  commands_reply :: "cmd_json list option"
  lock_raises :: "nat \<Rightarrow> bool"
  ack_raises :: "nat \<Rightarrow> bool"

text \<open>
  What one iteration sends out: the events in the telemetry payload, the ids of the commands
  for which the lock subprocess was started, and the ack requests as pairs of command id and
  status.
\<close>

record 'ev cycle_out =
  uploaded :: "'ev list"
  lock_runs :: "string list"
  acks :: "(string \<times> string) list"

text \<open>
  The body of the command loop for a command that passed verification: the status is
  \<^verbatim>\<open>EXECUTED\<close> unless the action is not \<^verbatim>\<open>LOCK\<close> or the subprocess raises.
\<close>

definition command_status :: "cmd_json \<Rightarrow> bool \<Rightarrow> string" where
  "command_status c raises =
     (if dict_get c ''action'' = JStr ''LOCK''
      then (if raises then ''FAILED'' else ''EXECUTED'')
      else ''FAILED'')"

text \<open>
  The command loop from position \<open>i\<close> on. The third component tells whether an ack POST
  raised, which leaves the loop through the handler of the whole iteration.
\<close>

fun command_loop ::
  "(string \<Rightarrow> string \<Rightarrow> string) \<Rightarrow> ('ev, 'p) agent \<Rightarrow> 'p cycle_env \<Rightarrow> nat \<Rightarrow> cmd_json list
     \<Rightarrow> string list \<times> (string \<times> string) list \<times> bool" where
  "command_loop hmac_hex ag env i [] = ([], [], False)"
| "command_loop hmac_hex ag env i (c # cs) =
     (if \<not> verify_command hmac_hex ag c then command_loop hmac_hex ag env (Suc i) cs
      else let status = command_status c (lock_raises env i);
               ran = (if dict_get c ''action'' = JStr ''LOCK'' then [py_str (dict_get c ''id'')] else []);
               ack = (py_str (dict_get c ''id''), status)
           in if ack_raises env i then (ran, [ack], True)
              else (case command_loop hmac_hex ag env (Suc i) cs of
                      (rans, sent_acks, raised) \<Rightarrow> (ran @ rans, ack # sent_acks, raised)))"

text \<open>The handler of the iteration: a non-empty queue is persisted and cleared.\<close>

definition on_exception :: "('ev \<Rightarrow> string) \<Rightarrow> ('ev, 'p) agent \<Rightarrow> ('ev, 'p) agent" where
  "on_exception dumps ag =
     (if event_queue ag \<noteq> []
      then ag\<lparr>offline_file := persist_offline dumps (event_queue ag) (offline_file ag),
              event_queue := []\<rparr>
      else ag)"

text \<open>
  One iteration of the \<^verbatim>\<open>while\<close> loop of \<^verbatim>\<open>sync_loop\<close>, on its own: the monitor
  threads that append to the queue while it runs are not part of the model. The POST counts as
  done when it returns, whatever the status of the response, as in the source.
\<close>

definition sync_cycle ::
  "(string \<Rightarrow> string \<Rightarrow> string) \<Rightarrow> (string \<Rightarrow> 'ev option) \<Rightarrow> ('ev \<Rightarrow> string) \<Rightarrow> 'p cycle_env
     \<Rightarrow> ('ev, 'p) agent \<Rightarrow> ('ev, 'p) agent \<times> 'ev cycle_out" where
  "sync_cycle hmac_hex loads dumps env ag =
     (let offline = load_offline loads 200 (offline_file ag);
          merged = offline @ event_queue ag;
          sent = \<lparr>uploaded = merged, lock_runs = [], acks = []\<rparr>
      in if post_raises env then (on_exception dumps ag, sent)
         else
           let ag1 = ag\<lparr>event_queue := []\<rparr>;
               ag2 = (if offline \<noteq> []
                      then ag1\<lparr>offline_file :=
                                 truncate_offline (int (length offline)) (offline_file ag1)\<rparr>
                      else ag1)
           in (case policy_reply env of
                 None \<Rightarrow> (on_exception dumps ag2, sent)
               | Some p \<Rightarrow>
                   let ag3 = ag2\<lparr>policy := p\<rparr> in
                   (case commands_reply env of
                      None \<Rightarrow> (on_exception dumps ag3, sent)
                    | Some cmds \<Rightarrow>
                        (case command_loop hmac_hex ag3 env 0 cmds of
                           (rans, sent_acks, raised) \<Rightarrow>
                             (if raised then on_exception dumps ag3 else ag3,
                              sent\<lparr>lock_runs := rans, acks := sent_acks\<rparr>)))))"

section \<open>Server: commands and telemetry (src/server.py)\<close>

text \<open>
  Times are integers (microseconds); \<open>isoformat\<close> stands for \<^verbatim>\<open>datetime.isoformat\<close> and is a
  parameter, as \<open>hmac_hex\<close> is. Stored integers are unbounded. The JSON columns
  (\<^verbatim>\<open>work_stats\<close>, \<^verbatim>\<open>policy\<close>, \<^verbatim>\<open>metadata_json\<close>) hold values of a type \<open>'j\<close> that the
  endpoints only copy. Of a device only the columns that these endpoints read or write are
  kept. A table is the list of its rows; the primary key of \<^verbatim>\<open>commands\<close> is \<open>cmd_id\<close>.
  Foreign keys are not enforced. A request that raises leaves the database as it was.
\<close>

record 'j device =
  dev_status :: string
  risk_score :: int
  last_heartbeat :: int
  work_stats :: 'j
  dev_policy :: 'j

record 'j security_event =
  ev_id :: string
  ev_device_id :: string
  ev_timestamp :: int
  ev_type :: string
  severity :: string
  ev_description :: string
  risk_weight :: int
  metadata_json :: 'j

record command =
  cmd_id :: string
  device_id :: string
  action :: string
  status :: string
  issued_by :: string
  timestamp :: int
  expires_at :: int
  executed_at :: "int option"

record 'j server =
  devices :: "string \<rightharpoonup> 'j device"
  security_events :: "'j security_event list"
  commands :: "command list"

record 'j event_in =
  in_type :: string
  description :: string
  weight :: int
  metadata :: 'j

record 'j telemetry_in =
  in_agent_id :: string
  in_events :: "'j event_in list"
  in_work_stats :: 'j

record command_in =
  deviceId :: string
  in_action :: string

datatype http_error = HTTPException nat

text \<open>\<^verbatim>\<open>_sign_command\<close>, with the signing secret as an argument.\<close>

definition sign_command ::
  "(string \<Rightarrow> string \<Rightarrow> string) \<Rightarrow> (int \<Rightarrow> string) \<Rightarrow> string
     \<Rightarrow> string \<Rightarrow> string \<Rightarrow> string \<Rightarrow> int \<Rightarrow> string" where
  "sign_command hmac_hex isoformat secret cid did act expires =
     hmac_hex secret (cid @ ''|'' @ did @ ''|'' @ act @ ''|'' @ isoformat expires)"

text \<open>
  The loop of \<^verbatim>\<open>receive_telemetry\<close> over the submitted events: it adds one row per event and
  updates the risk score. \<open>uuid4 k\<close> is the identifier drawn for the \<open>k\<close>-th event.
\<close>

fun ingest_loop ::
  "int \<Rightarrow> (nat \<Rightarrow> string) \<Rightarrow> string \<Rightarrow> nat \<Rightarrow> 'j event_in list
     \<Rightarrow> 'j security_event list \<times> int \<Rightarrow> 'j security_event list \<times> int" where
  "ingest_loop now uuid4 aid k [] (rows, risk) = (rows, risk)"
| "ingest_loop now uuid4 aid k (e # es) (rows, risk) =
     ingest_loop now uuid4 aid (Suc k) es
       (rows @ [\<lparr>ev_id = uuid4 k, ev_device_id = aid, ev_timestamp = now, ev_type = in_type e,
                  severity = (if weight e > 60 then ''CRITICAL'' else ''NORMAL''),
                  ev_description = description e, risk_weight = weight e,
                  metadata_json = metadata e\<rparr>],
        min 100 (risk + weight e))"

definition receive_telemetry ::
  "int \<Rightarrow> (nat \<Rightarrow> string) \<Rightarrow> 'j telemetry_in \<Rightarrow> 'j server \<Rightarrow> http_error + ('j server \<times> 'j)" where
  "receive_telemetry now uuid4 payload db =
     (case devices db (in_agent_id payload) of
        None \<Rightarrow> Inl (HTTPException 404)
      | Some dev \<Rightarrow>
          (case ingest_loop now uuid4 (in_agent_id payload) 0 (in_events payload)
                  (security_events db, risk_score dev) of
             (rows, risk) \<Rightarrow>
               Inr (db\<lparr>devices := (devices db)(in_agent_id payload \<mapsto>
                          dev\<lparr>last_heartbeat := now, dev_status := ''ONLINE'',
                              work_stats := in_work_stats payload, risk_score := risk\<rparr>),
                        security_events := rows\<rparr>,
                    dev_policy dev)))"

text \<open>
  \<^verbatim>\<open>poll_commands\<close>: the query, the signed results, and the status update of the selected
  rows.
\<close>

definition selected :: "int \<Rightarrow> string \<Rightarrow> command \<Rightarrow> bool" where
  "selected now aid c = (device_id c = aid \<and> status c = ''PENDING'' \<and> expires_at c > now)"

definition command_json ::
  "(string \<Rightarrow> string \<Rightarrow> string) \<Rightarrow> (int \<Rightarrow> string) \<Rightarrow> string \<Rightarrow> command \<Rightarrow> cmd_json" where
  "command_json hmac_hex isoformat secret c =
     [''id'' \<mapsto> JStr (cmd_id c),
      ''action'' \<mapsto> JStr (action c),
      ''expiresAt'' \<mapsto> JStr (isoformat (expires_at c)),
      ''signature'' \<mapsto> JStr (sign_command hmac_hex isoformat secret (cmd_id c) (device_id c) (action c)
                                 (expires_at c))]"

definition poll_commands ::
  "(string \<Rightarrow> string \<Rightarrow> string) \<Rightarrow> (int \<Rightarrow> string) \<Rightarrow> string \<Rightarrow> int \<Rightarrow> string \<Rightarrow> 'j server
     \<Rightarrow> 'j server \<times> cmd_json list" where
  "poll_commands hmac_hex isoformat secret now aid db =
     (let cmds = filter (selected now aid) (commands db);
          results = map (command_json hmac_hex isoformat secret) cmds
      in (db\<lparr>commands := map (\<lambda>c. if selected now aid c then c\<lparr>status := ''SENT''\<rparr> else c)
                              (commands db)\<rparr>,
          results))"

text \<open>
  \<^verbatim>\<open>ack_command\<close>: the first row with the given id, if there is one, gets the status of the
  request body (\<^verbatim>\<open>EXECUTED\<close> when the body has none) and the time. The body is a JSON
  object; the model covers string values, the only ones the \<^verbatim>\<open>String\<close> column is meant for.
\<close>

fun update_first :: "string \<Rightarrow> (command \<Rightarrow> command) \<Rightarrow> command list \<Rightarrow> command list" where
  "update_first cid f [] = []"
| "update_first cid f (c # cs) = (if cmd_id c = cid then f c # cs else c # update_first cid f cs)"

definition ack_command :: "int \<Rightarrow> string \<Rightarrow> (string \<rightharpoonup> string) \<Rightarrow> 'j server \<Rightarrow> 'j server" where
  "ack_command now cid data db =
     db\<lparr>commands :=
          update_first cid
            (\<lambda>c. c\<lparr>status := (case data ''status'' of None \<Rightarrow> ''EXECUTED'' | Some v \<Rightarrow> v),
                   executed_at := Some now\<rparr>)
            (commands db)\<rparr>"

text \<open>
  \<^verbatim>\<open>issue_command\<close>: \<open>new_id\<close> is the identifier \<^verbatim>\<open>uuid4\<close> draws; the status is the column
  default. Five minutes are 300000000 microseconds. An identifier that is already a primary
  key makes the commit fail.
\<close>

definition issue_command ::
  "int \<Rightarrow> string \<Rightarrow> command_in \<Rightarrow> 'j server \<Rightarrow> http_error + ('j server \<times> string \<times> string)" where
  "issue_command now new_id payload db =
     (if new_id \<in> set (map cmd_id (commands db)) then Inl (HTTPException 500)
      else Inr (db\<lparr>commands := commands db @
                  [\<lparr>cmd_id = new_id, device_id = deviceId payload, action = in_action payload,
                    status = ''PENDING'', issued_by = ''ADMIN_UI'', timestamp = now,
                    expires_at = now + 300000000, executed_at = None\<rparr>]\<rparr>,
                new_id, ''PENDING''))"

text \<open>Requests to the four endpoints, and the state after a sequence of them.\<close>

datatype 'j request =
    Telemetry int "nat \<Rightarrow> string" "'j telemetry_in"
  | Poll int string
  | Ack int string "string \<rightharpoonup> string"
  | Issue int string command_in

fun handle ::
  "(string \<Rightarrow> string \<Rightarrow> string) \<Rightarrow> (int \<Rightarrow> string) \<Rightarrow> string \<Rightarrow> 'j request \<Rightarrow> 'j server \<Rightarrow> 'j server" where
  "handle hmac_hex isoformat secret (Telemetry now uuid4 payload) db =
     (case receive_telemetry now uuid4 payload db of Inl e \<Rightarrow> db | Inr (db', r) \<Rightarrow> db')"
| "handle hmac_hex isoformat secret (Poll now aid) db = fst (poll_commands hmac_hex isoformat secret now aid db)"
| "handle hmac_hex isoformat secret (Ack now cid data) db = ack_command now cid data db"
| "handle hmac_hex isoformat secret (Issue now new_id payload) db =
     (case issue_command now new_id payload db of Inl e \<Rightarrow> db | Inr (db', r) \<Rightarrow> db')"

fun serve ::
  "(string \<Rightarrow> string \<Rightarrow> string) \<Rightarrow> (int \<Rightarrow> string) \<Rightarrow> string \<Rightarrow> 'j request list \<Rightarrow> 'j server \<Rightarrow> 'j server" where
  "serve hmac_hex isoformat secret [] db = db"
| "serve hmac_hex isoformat secret (r # rs) db = serve hmac_hex isoformat secret rs (handle hmac_hex isoformat secret r db)"

section \<open>Notions used to state the properties\<close>

text \<open>
  A list of lines is well formed when every line is non-empty, a newline occurs only as the
  last character of a line, and every line but the last ends with one.
\<close>

fun lines_ok :: "string list \<Rightarrow> bool" where
  "lines_ok [] = True"
| "lines_ok [l] = (l \<noteq> [] \<and> newline \<notin> set (butlast l))"
| "lines_ok (l # l' # ls) =
     (l \<noteq> [] \<and> newline \<notin> set (butlast l) \<and> last l = newline \<and> lines_ok (l' # ls))"

text \<open>
  The lines that a read with cap \<open>max_lines\<close> hands to \<^verbatim>\<open>json.loads\<close>: the first
  \<open>max_lines\<close> lines of the file, stripped, without the blank ones.
\<close>

definition head_lines :: "int \<Rightarrow> string \<Rightarrow> string list" where
  "head_lines max_lines text =
     filter (\<lambda>l. l \<noteq> []) (map py_strip (take (nat max_lines) (py_lines text)))"

text \<open>
  An instance of the JSON codec for concrete inputs: JSON string literals without escapes.
  On a plain string \<open>dumps_plain\<close> is \<^verbatim>\<open>json.dumps\<close>; \<open>loads_plain\<close> returns what
  \<^verbatim>\<open>json.loads\<close> returns on such a literal and stands for it on the inputs below, all of
  which are such literals or no JSON at all.
\<close>

definition dquote :: char where
  "dquote = CHR 0x22"

definition plain_char :: "char \<Rightarrow> bool" where
  "plain_char c =
     (c \<noteq> dquote \<and> c \<noteq> CHR 0x5C \<and> 32 \<le> (of_char c :: nat) \<and> (of_char c :: nat) < 128)"

definition dumps_plain :: "string \<Rightarrow> string" where
  "dumps_plain s = dquote # s @ [dquote]"

definition loads_plain :: "string \<Rightarrow> string option" where
  "loads_plain t =
     (case t of
        [] \<Rightarrow> None
      | c # r \<Rightarrow>
          if c = dquote \<and> r \<noteq> [] \<and> last r = dquote \<and> list_all plain_char (butlast r)
          then Some (butlast r) else None)"

text \<open>
  The codec returns an event to what it was: the line written for \<open>e\<close> holds no newline of
  its own, is not blank, and parses to \<open>e\<close>. This is what \<^verbatim>\<open>json.dumps\<close> and
  \<^verbatim>\<open>json.loads\<close> do for the events the agent builds.
\<close>

definition codec_ok :: "(string \<Rightarrow> 'ev option) \<Rightarrow> ('ev \<Rightarrow> string) \<Rightarrow> 'ev \<Rightarrow> bool" where
  "codec_ok loads dumps e =
     (newline \<notin> set (dumps e) \<and> py_strip (dumps e @ [newline]) \<noteq> []
      \<and> loads (py_strip (dumps e @ [newline])) = Some e)"


definition signed_text :: "string \<Rightarrow> string \<Rightarrow> string \<Rightarrow> string \<Rightarrow> string" where
  "signed_text cid did act ex = cid @ ''|'' @ did @ ''|'' @ act @ ''|'' @ ex"



text \<open>
  Concrete values for the examples: a keyed digest that is injective in the message and never
  empty, standing for \<open>hmac_hex\<close>; a function that agrees with \<^verbatim>\<open>isoformat\<close> at the epoch
  and five minutes after it, the two instants the examples use; an agent with an empty queue and
  no buffer file; a network that is down, a server that answers the upload with status 500 and a
  body that is no JSON, and one that answers with a given list of commands;
  commands signed for this agent with its secret.
\<close>

definition mac_demo :: "string \<Rightarrow> string \<Rightarrow> string" where
  "mac_demo key msg = key @ ''/'' @ msg"

definition iso_demo :: "int \<Rightarrow> string" where
  "iso_demo t = (if t = 300000000 then ''1970-01-01T00:05:00'' else ''1970-01-01T00:00:00'')"

definition agent_demo :: "(string, unit) agent" where
  "agent_demo = \<lparr>agent_id = ''dev'', command_secret = ''k'', event_queue = [],
                  offline_file = None, policy = ()\<rparr>"

definition env_down :: "unit cycle_env" where
  "env_down = \<lparr>post_raises = True, post_status = 0, policy_reply = None, commands_reply = None,
                lock_raises = (\<lambda>k. False), ack_raises = (\<lambda>k. False)\<rparr>"

definition env_rejected :: "unit cycle_env" where
  "env_rejected = \<lparr>post_raises = False, post_status = 500, policy_reply = None,
                    commands_reply = None, lock_raises = (\<lambda>k. False), ack_raises = (\<lambda>k. False)\<rparr>"

definition env_up :: "cmd_json list \<Rightarrow> unit cycle_env" where
  "env_up cmds = \<lparr>post_raises = False, post_status = 200, policy_reply = Some (), commands_reply = Some cmds,
                   lock_raises = (\<lambda>k. False), ack_raises = (\<lambda>k. False)\<rparr>"

definition cmd_demo :: "string \<Rightarrow> string \<Rightarrow> cmd_json" where
  "cmd_demo cid act =
     [''id'' \<mapsto> JStr cid, ''action'' \<mapsto> JStr act, ''expiresAt'' \<mapsto> JStr ''1970-01-01T00:05:00'',
      ''signature'' \<mapsto> JStr (mac_demo ''k'' (cid @ ''|dev|'' @ act @ ''|1970-01-01T00:05:00''))]"

definition command_demo :: "string \<Rightarrow> command" where
  "command_demo act = \<lparr>cmd_id = ''c1'', device_id = ''dev'', action = act, status = ''PENDING'',
      issued_by = ''ADMIN_UI'', timestamp = 0, expires_at = 300000000, executed_at = None\<rparr>"



fun reissues :: "string \<Rightarrow> 'j request \<Rightarrow> bool" where
  "reissues cid (Ack now cid' data) = (cid' = cid \<and> data ''status'' = Some ''PENDING'')"
| "reissues cid (Telemetry now uuid4 payload) = False"
| "reissues cid (Poll now aid) = False"
| "reissues cid (Issue now new_id payload) = False"

text \<open>
  A command with the given id is stored, no two stored commands share an id, and the command
  with this id is not \<^verbatim>\<open>PENDING\<close>.
\<close>

definition delivered :: "string \<Rightarrow> 'j server \<Rightarrow> bool" where
  "delivered cid db =
     (distinct (map cmd_id (commands db))
      \<and> cid \<in> set (map cmd_id (commands db))
      \<and> (\<forall>c \<in> set (commands db). cmd_id c = cid \<longrightarrow> status c \<noteq> ''PENDING''))"

text \<open>
  Concrete values for the examples: a device with a given risk score, an event with a given
  weight, a server that knows the device \<^verbatim>\<open>dev\<close> and stores the given commands, and a
  command with a given id, status and expiry.
\<close>

definition device_demo :: "int \<Rightarrow> unit device" where
  "device_demo score = \<lparr>dev_status = ''ONLINE'', risk_score = score, last_heartbeat = 0,
                         work_stats = (), dev_policy = ()\<rparr>"

definition event_demo :: "int \<Rightarrow> unit event_in" where
  "event_demo w = \<lparr>in_type = ''USB_INSERT'', description = ''USB Mounted'', weight = w,
                    metadata = ()\<rparr>"

definition telemetry_demo :: "int list \<Rightarrow> unit telemetry_in" where
  "telemetry_demo ws = \<lparr>in_agent_id = ''dev'', in_events = map event_demo ws, in_work_stats = ()\<rparr>"

definition server_demo :: "int \<Rightarrow> command list \<Rightarrow> unit server" where
  "server_demo score cmds =
     \<lparr>devices = [''dev'' \<mapsto> device_demo score], security_events = [], commands = cmds\<rparr>"

definition stored_demo :: "string \<Rightarrow> string \<Rightarrow> int \<Rightarrow> command" where
  "stored_demo cid st expires = \<lparr>cmd_id = cid, device_id = ''dev'', action = ''LOCK'', status = st,
      issued_by = ''ADMIN_UI'', timestamp = 0, expires_at = expires, executed_at = None\<rparr>"

section \<open>The lines of a text\<close>

lemma concat_py_lines: "concat (py_lines s) = s"
  by (induction s) (auto split: list.splits)

lemma lines_ok_cons_char: "lines_ok (l # ls) \<Longrightarrow> a \<noteq> newline \<Longrightarrow> lines_ok ((a # l) # ls)"
  by (cases ls) auto

lemma lines_ok_py_lines: "lines_ok (py_lines s)"
  by (induction s) (auto split: list.splits simp: lines_ok_cons_char)

lemma py_lines_line_append:
  "l \<noteq> [] \<Longrightarrow> newline \<notin> set (butlast l) \<Longrightarrow> last l = newline \<Longrightarrow> py_lines (l @ t) = l # py_lines t"
  by (induction l) (auto split: list.splits if_splits)

lemma py_lines_single: "l \<noteq> [] \<Longrightarrow> newline \<notin> set (butlast l) \<Longrightarrow> py_lines l = [l]"
  by (induction l) (auto split: list.splits if_splits)

lemma py_lines_concat: "lines_ok ls \<Longrightarrow> py_lines (concat ls) = ls"
  by (induction ls rule: lines_ok.induct) (auto simp: py_lines_single py_lines_line_append)

lemma lines_ok_drop: "lines_ok ls \<Longrightarrow> lines_ok (drop k ls)"
  by (induction ls arbitrary: k rule: lines_ok.induct) (auto simp: drop_Cons split: nat.splits)

lemma py_lines_drop: "py_lines (concat (drop k (py_lines s))) = drop k (py_lines s)"
  by (simp add: py_lines_concat lines_ok_drop lines_ok_py_lines)

section \<open>Reading and truncating the offline buffer\<close>

text \<open>
  The loop of \<open>load_offline\<close> in closed form: it looks at the lines up to the cap, and either
  all the non-blank ones parse, or the result is the failure.
\<close>

lemma load_loop_eq:
  "load_loop loads m i ls acc =
     (let ps = filter (\<lambda>l. l \<noteq> []) (map py_strip (take (nat (m - i)) ls))
      in if list_all (\<lambda>l. loads l \<noteq> None) ps then Some (acc @ map (the \<circ> loads) ps) else None)"
proof (induction ls arbitrary: i acc)
  case Nil
  then show ?case by simp
next
  case (Cons line rest)
  show ?case
  proof (cases "i \<ge> m")
    case True
    then show ?thesis by simp
  next
    case False
    then have n: "nat (m - i) = Suc (nat (m - (i + 1)))" by simp
    show ?thesis
      using False by (simp add: n Cons.IH Let_def split: option.splits)
  qed
qed

lemma load_offline_eq:
  "load_offline loads max_lines (Some text) =
     (if list_all (\<lambda>l. loads l \<noteq> None) (head_lines max_lines text)
      then map (the \<circ> loads) (head_lines max_lines text) else [])"
  by (simp add: load_offline_def load_loop_eq head_lines_def Let_def)

text \<open>
  Claim C7. For a buffer file of \<open>m\<close> lines, truncating \<open>k\<close> lines leaves a file whose lines
  are the old ones without the first \<open>k\<close>, so \<open>m - k\<close> of them (none when \<open>k\<close> exceeds \<open>m\<close>, the
  subtraction being the one of the natural numbers); a following truncation of 0 lines
  changes nothing; truncating more than \<open>m\<close> lines leaves the empty file. The call always
  returns, and the file still exists. (For a negative \<open>k\<close> the source returns at once and
  \<open>nat k\<close> is 0.)
\<close>

theorem truncate_offline_drops_prefix:
  "\<exists>text'. truncate_offline k (Some text) = Some text'
     \<and> py_lines text' = drop (nat k) (py_lines text)
     \<and> length (py_lines text') = length (py_lines text) - nat k
     \<and> truncate_offline 0 (Some text') = Some text'
     \<and> (int (length (py_lines text)) < k \<longrightarrow> text' = [])"
proof (cases "k \<le> 0")
  case True
  then show ?thesis by (simp add: truncate_offline_def)
next
  case False
  let ?t = "concat (drop (nat k) (py_lines text))"
  have 1: "truncate_offline k (Some text) = Some ?t"
    using False by (simp add: truncate_offline_def)
  have 2: "py_lines ?t = drop (nat k) (py_lines text)"
    by (rule py_lines_drop)
  have 3: "truncate_offline 0 (Some ?t) = Some ?t"
    by (simp add: truncate_offline_def)
  have 4: "int (length (py_lines text)) < k \<longrightarrow> ?t = []"
    by simp
  show ?thesis using 1 2 3 4 by simp
qed

theorem truncate_offline_drops_prefix_witness:
  "truncate_offline 2 (Some ''a\<newline>b\<newline>c\<newline>'') = Some ''c\<newline>''
   \<and> py_lines ''c\<newline>'' = drop 2 (py_lines ''a\<newline>b\<newline>c\<newline>'')
   \<and> length (py_lines ''c\<newline>'') = 1
   \<and> int (length (py_lines ''a\<newline>b\<newline>c\<newline>'')) < 5
   \<and> truncate_offline 5 (Some ''a\<newline>b\<newline>c\<newline>'') = Some []"
  using truncate_offline_drops_prefix [of 2 "''a\<newline>b\<newline>c\<newline>''"]
    truncate_offline_drops_prefix [of 5 "''a\<newline>b\<newline>c\<newline>''"]
  by (simp add: truncate_offline_def newline_def)

text \<open>
  Claim C1, as the code has it, for a buffer file that decodes as text. The handler for
  \<^verbatim>\<open>json.loads\<close> encloses the whole loop and returns the empty list. So a read returns the
  events parsed from the non-blank lines among the first \<open>max_lines\<close> lines when every one of
  them parses, and the empty list as soon as one of them is malformed; the events of the
  well-formed lines are then not returned. A line is blank when \<^verbatim>\<open>strip()\<close> leaves nothing
  of it, white space outside ASCII included.
\<close>

theorem load_offline_all_or_nothing:
  "((\<forall>l \<in> set (head_lines max_lines text). loads l \<noteq> None) \<longrightarrow>
      load_offline loads max_lines (Some text) = map (the \<circ> loads) (head_lines max_lines text))
   \<and> ((\<exists>l \<in> set (head_lines max_lines text). loads l = None) \<longrightarrow>
      load_offline loads max_lines (Some text) = [])"
  by (auto simp add: load_offline_eq list_all_iff)

theorem load_offline_all_or_nothing_witness:
  "head_lines 4 (dumps_plain ''A'' @ [newline] @ ''  '' @ [newline] @ [CHR 0xC2, CHR 0xA0] @ [newline]
                  @ dumps_plain ''C'' @ [newline] @ ''not json'' @ [newline])
     = [dumps_plain ''A'', dumps_plain ''C'']
   \<and> load_offline loads_plain 4
        (Some (dumps_plain ''A'' @ [newline] @ ''  '' @ [newline] @ [CHR 0xC2, CHR 0xA0] @ [newline]
               @ dumps_plain ''C'' @ [newline] @ ''not json'' @ [newline])) = [''A'', ''C'']
   \<and> head_lines 2 (dumps_plain ''A'' @ [newline] @ ''not json'' @ [newline]) = [dumps_plain ''A'', ''not json'']
   \<and> loads_plain ''not json'' = None
   \<and> load_offline loads_plain 2 (Some (dumps_plain ''A'' @ [newline] @ ''not json'' @ [newline])) = []"
proof -
  let ?good = "dumps_plain ''A'' @ [newline] @ ''  '' @ [newline] @ [CHR 0xC2, CHR 0xA0] @ [newline]
                  @ dumps_plain ''C'' @ [newline] @ ''not json'' @ [newline]"
  let ?bad = "dumps_plain ''A'' @ [newline] @ ''not json'' @ [newline]"
  have h1: "head_lines 4 ?good = [dumps_plain ''A'', dumps_plain ''C'']"
    by (simp add: head_lines_def dumps_plain_def dquote_def newline_def py_strip_def is_space_def
        is_space2_def is_space3_def)
  have h2: "head_lines 2 ?bad = [dumps_plain ''A'', ''not json'']"
    by (simp add: head_lines_def dumps_plain_def dquote_def newline_def py_strip_def is_space_def
        is_space2_def is_space3_def)
  have l1: "loads_plain (dumps_plain ''A'') = Some ''A''" "loads_plain (dumps_plain ''C'') = Some ''C''"
    by (simp_all add: loads_plain_def dumps_plain_def dquote_def plain_char_def)
  have l2: "loads_plain ''not json'' = None"
    by (simp add: loads_plain_def dquote_def)
  have g: "load_offline loads_plain 4 (Some ?good) = [''A'', ''C'']"
    using load_offline_all_or_nothing [of 4 ?good loads_plain, unfolded h1] by (simp add: l1)
  have b: "load_offline loads_plain 2 (Some ?bad) = []"
    using load_offline_all_or_nothing [of 2 ?bad loads_plain, unfolded h2] by (simp add: l1 l2)
  show ?thesis using h1 h2 l2 g b by blast
qed

text \<open>
  Claim C1 as stated fails: of the three lines below the first and the third parse and the
  second is no JSON; the read returns no event at all, not the two events of the other lines.
\<close>

theorem load_offline_malformed_counterexample:
  "loads_plain (py_strip (dumps_plain ''A'' @ [newline])) = Some ''A''
   \<and> loads_plain (py_strip (''not json'' @ [newline])) = None
   \<and> loads_plain (py_strip (dumps_plain ''C'' @ [newline])) = Some ''C''
   \<and> load_offline loads_plain 200
        (Some (dumps_plain ''A'' @ [newline] @ ''not json'' @ [newline] @ dumps_plain ''C'' @ [newline])) = []"
  by (simp add: load_offline_def loads_plain_def dumps_plain_def dquote_def newline_def
        py_strip_def is_space_def is_space2_def is_space3_def plain_char_def)

section \<open>The sync cycle: what is uploaded and what a failure leaves\<close>

lemma lines_ok_event_lines:
  "\<forall>e \<in> set es. newline \<notin> set (dumps e) \<Longrightarrow> lines_ok (map (\<lambda>e. dumps e @ [newline]) es)"
  by (induction es rule: induct_list012) (auto simp: butlast_append)

lemma py_lines_event_lines:
  "\<forall>e \<in> set es. newline \<notin> set (dumps e) \<Longrightarrow>
     py_lines (concat (map (\<lambda>e. dumps e @ [newline]) es)) = map (\<lambda>e. dumps e @ [newline]) es"
  by (simp add: py_lines_concat lines_ok_event_lines)

lemma load_offline_event_lines:
  assumes "\<forall>e \<in> set es. codec_ok loads dumps e"
  shows "load_offline loads m (Some (concat (map (\<lambda>e. dumps e @ [newline]) es))) = take (nat m) es"
proof -
  have nl: "\<forall>e \<in> set es. newline \<notin> set (dumps e)"
    using assms by (simp add: codec_ok_def)
  have ok: "\<forall>e \<in> set (take (nat m) es). codec_ok loads dumps e"
    using assms by (meson in_set_takeD)
  have h: "head_lines m (concat (map (\<lambda>e. dumps e @ [newline]) es))
             = map (\<lambda>e. py_strip (dumps e @ [newline])) (take (nat m) es)"
    using ok by (simp add: head_lines_def py_lines_event_lines [OF nl] take_map filter_map o_def
        codec_ok_def filter_id_conv)
  have p: "map (the \<circ> loads) (map (\<lambda>e. py_strip (dumps e @ [newline])) (take (nat m) es)) = take (nat m) es"
    using ok by (simp add: codec_ok_def map_idI)
  have a: "list_all (\<lambda>l. loads l \<noteq> None) (map (\<lambda>e. py_strip (dumps e @ [newline])) (take (nat m) es))"
    using ok by (simp add: list_all_iff codec_ok_def)
  show ?thesis
    by (simp only: load_offline_eq h a p if_True)
qed

lemma sync_cycle_uploaded:
  "uploaded (snd (sync_cycle hmac_hex loads dumps env ag))
     = load_offline loads 200 (offline_file ag) @ event_queue ag"
  by (simp add: sync_cycle_def Let_def split: option.splits prod.splits)

lemma sync_cycle_post_raises:
  "post_raises env \<Longrightarrow> fst (sync_cycle hmac_hex loads dumps env ag) = on_exception dumps ag"
  by (simp add: sync_cycle_def Let_def)

text \<open>
  The case of an upload failure that the loop handles: the telemetry POST raises. Then the live
  queue is empty afterwards and the buffer file is its old text followed by one line per event
  that was in the queue, in queue order: the persisted backlog stays as it was, neither
  truncated nor written again. (With an empty queue nothing is written.)
\<close>

theorem upload_failure_spills_queue:
  "post_raises env \<Longrightarrow>
     event_queue (fst (sync_cycle hmac_hex loads dumps env ag)) = []
     \<and> offline_file (fst (sync_cycle hmac_hex loads dumps env ag)) =
         (if event_queue ag = [] then offline_file ag
          else Some ((case offline_file ag of None \<Rightarrow> [] | Some text \<Rightarrow> text)
                     @ concat (map (\<lambda>e. dumps e @ [newline]) (event_queue ag))))"
  by (simp add: sync_cycle_post_raises on_exception_def persist_offline_def)

theorem upload_failure_spills_queue_witness:
  "post_raises env_down
   \<and> event_queue (fst (sync_cycle mac_demo loads_plain dumps_plain env_down
        (agent_demo\<lparr>event_queue := [''D''],
                     offline_file := Some (dumps_plain ''A'' @ [newline])\<rparr>))) = []
   \<and> offline_file (fst (sync_cycle mac_demo loads_plain dumps_plain env_down
        (agent_demo\<lparr>event_queue := [''D''],
                     offline_file := Some (dumps_plain ''A'' @ [newline])\<rparr>)))
       = Some (dumps_plain ''A'' @ [newline] @ dumps_plain ''D'' @ [newline])"
proof -
  have h: "post_raises env_down"
    by (simp add: env_down_def)
  show ?thesis
    using h upload_failure_spills_queue [OF h, of mac_demo loads_plain dumps_plain
        "agent_demo\<lparr>event_queue := [''D''],
                     offline_file := Some (dumps_plain ''A'' @ [newline])\<rparr>"]
    by simp
qed

text \<open>
  When the POST returns, whatever the status of the response and whatever follows in the
  iteration, the queue is cleared without having been written to the buffer, and the lines
  that the read consumed are cut off the buffer.
\<close>

lemma on_exception_empty_queue: "event_queue ag = [] \<Longrightarrow> on_exception dumps ag = ag"
  by (simp add: on_exception_def)

lemma post_returned_never_spills:
  assumes "\<not> post_raises env"
  shows "event_queue (fst (sync_cycle hmac_hex loads dumps env ag)) = []
     \<and> offline_file (fst (sync_cycle hmac_hex loads dumps env ag)) =
         (if load_offline loads 200 (offline_file ag) = [] then offline_file ag
          else truncate_offline (int (length (load_offline loads 200 (offline_file ag))))
                 (offline_file ag))"
  using assms
  by (simp add: sync_cycle_def Let_def on_exception_empty_queue split: option.splits prod.splits)

text \<open>
  Claim C9, on the code. The loop takes the upload for done as soon as the POST returns: it
  never reads the status of the response, although the comment on the clearing reads
  \<^verbatim>\<open>If telemetry succeeded\<close>. Here the queue holds the event \<^verbatim>\<open>D\<close>, the buffer the line of the
  event \<^verbatim>\<open>A\<close>, and the server answers the upload with status 500 and a body that is no JSON.
  The queue is cleared and the line of \<^verbatim>\<open>A\<close> is cut off the buffer before \<^verbatim>\<open>r.json()\<close>
  raises; the handler then finds an empty queue and writes nothing. The upload has failed, the
  queue was not appended to the buffer, the backlog was truncated, and both events are lost.
\<close>

theorem upload_rejected_loses_events:
  "\<not> post_raises env_rejected \<and> post_status env_rejected = 500
   \<and> uploaded (snd (sync_cycle mac_demo loads_plain dumps_plain env_rejected
        (agent_demo\<lparr>event_queue := [''D''],
                     offline_file := Some (dumps_plain ''A'' @ [newline])\<rparr>))) = [''A'', ''D'']
   \<and> event_queue (fst (sync_cycle mac_demo loads_plain dumps_plain env_rejected
        (agent_demo\<lparr>event_queue := [''D''],
                     offline_file := Some (dumps_plain ''A'' @ [newline])\<rparr>))) = []
   \<and> offline_file (fst (sync_cycle mac_demo loads_plain dumps_plain env_rejected
        (agent_demo\<lparr>event_queue := [''D''],
                     offline_file := Some (dumps_plain ''A'' @ [newline])\<rparr>))) = Some []"
proof -
  let ?ag = "agent_demo\<lparr>event_queue := [''D''],
                     offline_file := Some (dumps_plain ''A'' @ [newline])\<rparr>"
  have l: "load_offline loads_plain 200 (offline_file ?ag) = [''A'']"
    by (simp add: load_offline_def loads_plain_def dumps_plain_def dquote_def newline_def
        py_strip_def is_space_def is_space2_def is_space3_def plain_char_def)
  have e: "\<not> post_raises env_rejected" "post_status env_rejected = 500"
    by (simp_all add: env_rejected_def)
  have t: "truncate_offline 1 (Some (dumps_plain ''A'' @ [newline])) = Some []"
    by (simp add: truncate_offline_def dumps_plain_def dquote_def newline_def)
  have u: "uploaded (snd (sync_cycle mac_demo loads_plain dumps_plain env_rejected ?ag)) = [''A'', ''D'']"
    using l by (simp add: sync_cycle_uploaded)
  have q: "event_queue (fst (sync_cycle mac_demo loads_plain dumps_plain env_rejected ?ag)) = []"
    using post_returned_never_spills [OF e(1)] by blast
  have "offline_file (fst (sync_cycle mac_demo loads_plain dumps_plain env_rejected ?ag)) =
         (if load_offline loads_plain 200 (offline_file ?ag) = [] then offline_file ?ag
          else truncate_offline (int (length (load_offline loads_plain 200 (offline_file ?ag))))
                 (offline_file ?ag))"
    using post_returned_never_spills [OF e(1)] by blast
  then have f: "offline_file (fst (sync_cycle mac_demo loads_plain dumps_plain env_rejected ?ag)) = Some []"
    unfolding l using t by simp
  show ?thesis using e u q f by blast
qed

text \<open>
  Claim C6. The events in the telemetry payload of a cycle are what the read of the buffer
  returns (cap 200) followed by the live queue. When the buffer holds the lines written for
  the events \<open>es\<close>, these are the first 200 of \<open>es\<close> in file order, then the queue. In
  particular, after three cycles whose upload failed with \<open>a\<close>, \<open>b\<close> and \<open>c\<close> logged one
  before each, and \<open>d\<close> logged since, the next cycle uploads \<open>a, b, c, d\<close> in that order.
\<close>

theorem upload_backlog_then_queue:
  "uploaded (snd (sync_cycle hmac_hex loads dumps env ag))
     = load_offline loads 200 (offline_file ag) @ event_queue ag
   \<and> ((\<forall>e \<in> set es. codec_ok loads dumps e)
        \<and> offline_file ag = Some (concat (map (\<lambda>e. dumps e @ [newline]) es)) \<longrightarrow>
      uploaded (snd (sync_cycle hmac_hex loads dumps env ag)) = take 200 es @ event_queue ag)
   \<and> (codec_ok loads dumps a \<and> codec_ok loads dumps b \<and> codec_ok loads dumps c
        \<and> event_queue ag = [] \<and> offline_file ag = None
        \<and> post_raises env_a \<and> post_raises env_b \<and> post_raises env_c \<longrightarrow>
      (let ag1 = fst (sync_cycle hmac_hex loads dumps env_a (log_event a ag));
           ag2 = fst (sync_cycle hmac_hex loads dumps env_b (log_event b ag1));
           ag3 = fst (sync_cycle hmac_hex loads dumps env_c (log_event c ag2))
       in uploaded (snd (sync_cycle hmac_hex loads dumps env (log_event d ag3))) = [a, b, c, d]))"
proof (intro conjI impI)
  show "uploaded (snd (sync_cycle hmac_hex loads dumps env ag))
     = load_offline loads 200 (offline_file ag) @ event_queue ag"
    by (rule sync_cycle_uploaded)
next
  assume "(\<forall>e \<in> set es. codec_ok loads dumps e)
        \<and> offline_file ag = Some (concat (map (\<lambda>e. dumps e @ [newline]) es))"
  then show "uploaded (snd (sync_cycle hmac_hex loads dumps env ag)) = take 200 es @ event_queue ag"
    using load_offline_event_lines [of es loads dumps 200]
    by (simp add: sync_cycle_uploaded)
next
  assume h: "codec_ok loads dumps a \<and> codec_ok loads dumps b \<and> codec_ok loads dumps c
        \<and> event_queue ag = [] \<and> offline_file ag = None
        \<and> post_raises env_a \<and> post_raises env_b \<and> post_raises env_c"
  have ok: "\<forall>e \<in> set [a, b, c]. codec_ok loads dumps e"
    using h by simp
  have l: "load_offline loads 200 (Some (concat (map (\<lambda>e. dumps e @ [newline]) [a, b, c]))) = [a, b, c]"
    using load_offline_event_lines [OF ok, of 200] by simp
  show "(let ag1 = fst (sync_cycle hmac_hex loads dumps env_a (log_event a ag));
           ag2 = fst (sync_cycle hmac_hex loads dumps env_b (log_event b ag1));
           ag3 = fst (sync_cycle hmac_hex loads dumps env_c (log_event c ag2))
       in uploaded (snd (sync_cycle hmac_hex loads dumps env (log_event d ag3))) = [a, b, c, d])"
    using h l
    by (simp add: Let_def sync_cycle_uploaded sync_cycle_post_raises on_exception_def
        log_event_def persist_offline_def)
qed

theorem upload_backlog_then_queue_witness:
  "codec_ok loads_plain dumps_plain ''A'' \<and> codec_ok loads_plain dumps_plain ''B''
   \<and> codec_ok loads_plain dumps_plain ''C''
   \<and> event_queue agent_demo = [] \<and> offline_file agent_demo = None \<and> post_raises env_down
   \<and> (let ag1 = fst (sync_cycle mac_demo loads_plain dumps_plain env_down (log_event ''A'' agent_demo));
           ag2 = fst (sync_cycle mac_demo loads_plain dumps_plain env_down (log_event ''B'' ag1));
           ag3 = fst (sync_cycle mac_demo loads_plain dumps_plain env_down (log_event ''C'' ag2))
       in uploaded (snd (sync_cycle mac_demo loads_plain dumps_plain (env_up []) (log_event ''D'' ag3)))
            = [''A'', ''B'', ''C'', ''D''])
   \<and> uploaded (snd (sync_cycle mac_demo loads_plain dumps_plain (env_up [])
        (agent_demo\<lparr>offline_file := Some (concat (map (\<lambda>e. dumps_plain e @ [newline]) [''A'', ''B''])),
                     event_queue := [''D'']\<rparr>))) = [''A'', ''B'', ''D'']"
proof -
  have c: "codec_ok loads_plain dumps_plain ''A''" "codec_ok loads_plain dumps_plain ''B''"
    "codec_ok loads_plain dumps_plain ''C''"
    by (simp_all add: codec_ok_def loads_plain_def dumps_plain_def py_strip_def is_space_def is_space2_def is_space3_def
        dquote_def newline_def plain_char_def)
  have s: "event_queue agent_demo = []" "offline_file agent_demo = None" "post_raises env_down"
    by (simp_all add: agent_demo_def env_down_def)
  note t = upload_backlog_then_queue [where loads = loads_plain and dumps = dumps_plain
      and hmac_hex = mac_demo and a = "''A''" and b = "''B''" and c = "''C''" and d = "''D''"
      and env_a = env_down and env_b = env_down and env_c = env_down and env = "env_up []"]
  have 1: "(let ag1 = fst (sync_cycle mac_demo loads_plain dumps_plain env_down (log_event ''A'' agent_demo));
           ag2 = fst (sync_cycle mac_demo loads_plain dumps_plain env_down (log_event ''B'' ag1));
           ag3 = fst (sync_cycle mac_demo loads_plain dumps_plain env_down (log_event ''C'' ag2))
       in uploaded (snd (sync_cycle mac_demo loads_plain dumps_plain (env_up []) (log_event ''D'' ag3)))
            = [''A'', ''B'', ''C'', ''D''])"
    using t [where ag = agent_demo] c s by blast
  have 2: "uploaded (snd (sync_cycle mac_demo loads_plain dumps_plain (env_up [])
        (agent_demo\<lparr>offline_file := Some (concat (map (\<lambda>e. dumps_plain e @ [newline]) [''A'', ''B''])),
                     event_queue := [''D'']\<rparr>))) = [''A'', ''B'', ''D'']"
  proof -
    let ?ag = "agent_demo\<lparr>offline_file := Some (concat (map (\<lambda>e. dumps_plain e @ [newline]) [''A'', ''B''])),
                     event_queue := [''D'']\<rparr>"
    have hyp: "(\<forall>e \<in> set [''A'', ''B'']. codec_ok loads_plain dumps_plain e)
        \<and> offline_file ?ag = Some (concat (map (\<lambda>e. dumps_plain e @ [newline]) [''A'', ''B'']))"
      using c by simp
    have "uploaded (snd (sync_cycle mac_demo loads_plain dumps_plain (env_up []) ?ag))
            = take 200 [''A'', ''B''] @ event_queue ?ag"
      using t [where es = "[''A'', ''B'']" and ag = ?ag] hyp by blast
    then show ?thesis by simp
  qed
  show ?thesis using c s 1 2 by blast
qed

section \<open>The command loop\<close>




lemma verify_command_agent:
  "agent_id ag' = agent_id ag \<Longrightarrow> command_secret ag' = command_secret ag \<Longrightarrow>
     verify_command hmac_hex ag' c = verify_command hmac_hex ag c"
  by (simp add: verify_command_def)





section \<open>Command verification\<close>

lemma split_at_separator:
  "x \<notin> set a \<Longrightarrow> x \<notin> set a' \<Longrightarrow> a @ x # r = a' @ x # r' \<Longrightarrow> a = a' \<and> r = r'"
proof (induction a arbitrary: a')
  case Nil
  then show ?case by (cases a') auto
next
  case (Cons y a)
  then show ?case by (cases a') auto
qed

lemma signed_text_one_field:
  "signed_text cid did act ex = signed_text cid did act' ex \<Longrightarrow> act = act'"
  "signed_text cid did act ex = signed_text cid did act ex' \<Longrightarrow> ex = ex'"
  "signed_text cid did act ex = signed_text cid' did act ex \<Longrightarrow> cid = cid'"
  by (simp_all add: signed_text_def)

lemma signed_text_no_separator:
  assumes "CHR ''|'' \<notin> set cid \<union> set cid' \<union> set act \<union> set act'"
    and "signed_text cid did act ex = signed_text cid' did act' ex'"
  shows "cid = cid' \<and> act = act' \<and> ex = ex'"
proof -
  have 1: "cid @ CHR ''|'' # (did @ ''|'' @ act @ ''|'' @ ex) = cid' @ CHR ''|'' # (did @ ''|'' @ act' @ ''|'' @ ex')"
    using assms(2) by (simp add: signed_text_def)
  have c: "cid = cid'" and r: "did @ ''|'' @ act @ ''|'' @ ex = did @ ''|'' @ act' @ ''|'' @ ex'"
    using split_at_separator [OF _ _ 1] assms(1) by auto
  from r have "act @ CHR ''|'' # ex = act' @ CHR ''|'' # ex'" by simp
  then have "act = act' \<and> ex = ex'"
    using split_at_separator [of "CHR ''|''" act act' ex ex'] assms(1) by auto
  with c show ?thesis by simp
qed

lemma verify_command_eq:
  "verify_command hmac_hex ag cmd =
     (truthy (dict_get cmd ''id'') \<and> truthy (dict_get cmd ''action'')
      \<and> truthy (dict_get cmd ''expiresAt'')
      \<and> (\<exists>sg. cmd ''signature'' = Some (JStr sg) \<and> sg \<noteq> []
            \<and> sg = hmac_hex (command_secret ag)
                    (signed_text (py_str (dict_get cmd ''id'')) (agent_id ag)
                       (py_str (dict_get cmd ''action'')) (py_str (dict_get cmd ''expiresAt'')))))"
  by (auto simp add: verify_command_def dict_get_def Let_def signed_text_def
      split: option.splits jval.splits)

lemma signed_text_eq: "signed_text cid did act ex = cid @ ''|'' @ did @ ''|'' @ act @ ''|'' @ ex"
  by (simp add: signed_text_def)

text \<open>
  Claim C5, as the code has it. The verifier accepts a command exactly when the values of
  \<^verbatim>\<open>id\<close>, \<^verbatim>\<open>action\<close> and \<^verbatim>\<open>expiresAt\<close> are present and true in Python's sense (for a
  string: not empty) and \<^verbatim>\<open>signature\<close> is a non-empty string equal to the hex HMAC, under
  the agent's secret, of \<^verbatim>\<open>id|agentId|action|expiresAt\<close>; a command that lacks one of the
  four fields is rejected, and for four string values the condition is that none is empty and
  the signature is that HMAC. So a command that the server signs
  for this agent with the same secret is accepted exactly when its id, its action, the text of
  its expiry and the signature are not empty. A command that carries the signature of another
  tuple of strings is rejected when a single field was altered, or when neither the ids nor the
  actions hold the separator, provided the keyed digest does not take the same value on the two
  joined strings, which then differ.
\<close>

theorem verify_command_accepts_iff:
  "(verify_command hmac_hex ag cmd =
     (truthy (dict_get cmd ''id'') \<and> truthy (dict_get cmd ''action'')
      \<and> truthy (dict_get cmd ''expiresAt'')
      \<and> (\<exists>sg. cmd ''signature'' = Some (JStr sg) \<and> sg \<noteq> []
            \<and> sg = hmac_hex (command_secret ag)
                    (py_str (dict_get cmd ''id'') @ ''|'' @ agent_id ag @ ''|''
                     @ py_str (dict_get cmd ''action'') @ ''|'' @ py_str (dict_get cmd ''expiresAt'')))))
   \<and> (cmd ''id'' = None \<or> cmd ''action'' = None \<or> cmd ''expiresAt'' = None \<or> cmd ''signature'' = None
        \<longrightarrow> \<not> verify_command hmac_hex ag cmd)
   \<and> (cmd ''id'' = Some (JStr cid) \<and> cmd ''action'' = Some (JStr act)
        \<and> cmd ''expiresAt'' = Some (JStr ex) \<and> cmd ''signature'' = Some (JStr sg) \<longrightarrow>
        verify_command hmac_hex ag cmd =
          (cid \<noteq> [] \<and> act \<noteq> [] \<and> ex \<noteq> [] \<and> sg \<noteq> []
           \<and> sg = hmac_hex (command_secret ag) (cid @ ''|'' @ agent_id ag @ ''|'' @ act @ ''|'' @ ex)))
   \<and> (device_id c = agent_id ag \<longrightarrow>
        verify_command hmac_hex ag (command_json hmac_hex isoformat (command_secret ag) c) =
          (cmd_id c \<noteq> [] \<and> action c \<noteq> [] \<and> isoformat (expires_at c) \<noteq> []
           \<and> sign_command hmac_hex isoformat (command_secret ag) (cmd_id c) (device_id c) (action c)
                (expires_at c) \<noteq> []))
   \<and> (cmd ''id'' = Some (JStr cid') \<and> cmd ''action'' = Some (JStr act')
        \<and> cmd ''expiresAt'' = Some (JStr ex')
        \<and> cmd ''signature'' = Some (JStr (hmac_hex (command_secret ag)
                                   (signed_text cid_s (agent_id ag) act_s ex_s)))
        \<and> (cid', act', ex') \<noteq> (cid_s, act_s, ex_s)
        \<and> ((cid' = cid_s \<and> ex' = ex_s) \<or> (cid' = cid_s \<and> act' = act_s) \<or> (act' = act_s \<and> ex' = ex_s)
             \<or> CHR ''|'' \<notin> set cid_s \<union> set cid' \<union> set act_s \<union> set act')
        \<and> (signed_text cid' (agent_id ag) act' ex' \<noteq> signed_text cid_s (agent_id ag) act_s ex_s \<longrightarrow>
             hmac_hex (command_secret ag) (signed_text cid' (agent_id ag) act' ex')
               \<noteq> hmac_hex (command_secret ag) (signed_text cid_s (agent_id ag) act_s ex_s))
        \<longrightarrow> \<not> verify_command hmac_hex ag cmd)"
proof (intro conjI impI)
  show "verify_command hmac_hex ag cmd =
     (truthy (dict_get cmd ''id'') \<and> truthy (dict_get cmd ''action'')
      \<and> truthy (dict_get cmd ''expiresAt'')
      \<and> (\<exists>sg. cmd ''signature'' = Some (JStr sg) \<and> sg \<noteq> []
            \<and> sg = hmac_hex (command_secret ag)
                    (py_str (dict_get cmd ''id'') @ ''|'' @ agent_id ag @ ''|''
                     @ py_str (dict_get cmd ''action'') @ ''|'' @ py_str (dict_get cmd ''expiresAt''))))"
    unfolding verify_command_eq signed_text_eq by (rule refl)
next
  assume "cmd ''id'' = None \<or> cmd ''action'' = None \<or> cmd ''expiresAt'' = None \<or> cmd ''signature'' = None"
  then show "\<not> verify_command hmac_hex ag cmd"
    by (auto simp add: verify_command_eq dict_get_def)
next
  assume "cmd ''id'' = Some (JStr cid) \<and> cmd ''action'' = Some (JStr act)
        \<and> cmd ''expiresAt'' = Some (JStr ex) \<and> cmd ''signature'' = Some (JStr sg)"
  then show "verify_command hmac_hex ag cmd =
          (cid \<noteq> [] \<and> act \<noteq> [] \<and> ex \<noteq> [] \<and> sg \<noteq> []
           \<and> sg = hmac_hex (command_secret ag) (cid @ ''|'' @ agent_id ag @ ''|'' @ act @ ''|'' @ ex))"
    by (auto simp add: verify_command_eq dict_get_def signed_text_def)
next
  assume "device_id c = agent_id ag"
  then show "verify_command hmac_hex ag (command_json hmac_hex isoformat (command_secret ag) c) =
          (cmd_id c \<noteq> [] \<and> action c \<noteq> [] \<and> isoformat (expires_at c) \<noteq> []
           \<and> sign_command hmac_hex isoformat (command_secret ag) (cmd_id c) (device_id c) (action c)
                (expires_at c) \<noteq> [])"
    by (auto simp add: verify_command_eq command_json_def sign_command_def dict_get_def signed_text_def)
next
  assume a: "cmd ''id'' = Some (JStr cid') \<and> cmd ''action'' = Some (JStr act')
        \<and> cmd ''expiresAt'' = Some (JStr ex')
        \<and> cmd ''signature'' = Some (JStr (hmac_hex (command_secret ag)
                                   (signed_text cid_s (agent_id ag) act_s ex_s)))
        \<and> (cid', act', ex') \<noteq> (cid_s, act_s, ex_s)
        \<and> ((cid' = cid_s \<and> ex' = ex_s) \<or> (cid' = cid_s \<and> act' = act_s) \<or> (act' = act_s \<and> ex' = ex_s)
             \<or> CHR ''|'' \<notin> set cid_s \<union> set cid' \<union> set act_s \<union> set act')
        \<and> (signed_text cid' (agent_id ag) act' ex' \<noteq> signed_text cid_s (agent_id ag) act_s ex_s \<longrightarrow>
             hmac_hex (command_secret ag) (signed_text cid' (agent_id ag) act' ex')
               \<noteq> hmac_hex (command_secret ag) (signed_text cid_s (agent_id ag) act_s ex_s))"
  have d: "signed_text cid' (agent_id ag) act' ex' \<noteq> signed_text cid_s (agent_id ag) act_s ex_s"
  proof
    assume e: "signed_text cid' (agent_id ag) act' ex' = signed_text cid_s (agent_id ag) act_s ex_s"
    have "cid' = cid_s \<and> act' = act_s \<and> ex' = ex_s"
      using a e signed_text_one_field signed_text_no_separator [of cid' cid_s act' act_s "agent_id ag" ex' ex_s]
      by (metis (no_types, lifting) Un_commute Un_assoc)
    then show False using a by simp
  qed
  show "\<not> verify_command hmac_hex ag cmd"
  proof
    assume "verify_command hmac_hex ag cmd"
    then have "hmac_hex (command_secret ag) (signed_text cid_s (agent_id ag) act_s ex_s)
        = hmac_hex (command_secret ag) (signed_text cid' (agent_id ag) act' ex')"
      using a by (auto simp add: verify_command_eq dict_get_def)
    then show False using a d by simp
  qed
qed

theorem verify_command_accepts_iff_witness:
  "device_id (command_demo ''LOCK'') = agent_id agent_demo
   \<and> verify_command mac_demo agent_demo
         (command_json mac_demo iso_demo (command_secret agent_demo) (command_demo ''LOCK''))
   \<and> ((cmd_demo ''c1'' ''LOCK'')(''signature'' := None)) ''signature'' = None
   \<and> \<not> verify_command mac_demo agent_demo ((cmd_demo ''c1'' ''LOCK'')(''signature'' := None))
   \<and> verify_command mac_demo agent_demo (cmd_demo ''c1'' ''LOCK'')
   \<and> (''c1'', ''WIPE'', ''1970-01-01T00:05:00'') \<noteq> (''c1'', ''LOCK'', ''1970-01-01T00:05:00'')
   \<and> mac_demo (command_secret agent_demo) (signed_text ''c1'' (agent_id agent_demo) ''WIPE'' ''1970-01-01T00:05:00'')
       \<noteq> mac_demo (command_secret agent_demo) (signed_text ''c1'' (agent_id agent_demo) ''LOCK'' ''1970-01-01T00:05:00'')
   \<and> \<not> verify_command mac_demo agent_demo
         ((command_json mac_demo iso_demo (command_secret agent_demo) (command_demo ''LOCK''))
            (''action'' \<mapsto> JStr ''WIPE''))"
proof -
  let ?signed = "command_json mac_demo iso_demo (command_secret agent_demo) (command_demo ''LOCK'')"
  let ?cmd = "?signed(''action'' \<mapsto> JStr ''WIPE'')"
  note t = verify_command_accepts_iff [where hmac_hex = mac_demo and ag = agent_demo
      and isoformat = iso_demo]
  have d: "device_id (command_demo ''LOCK'') = agent_id agent_demo"
    by (simp add: command_demo_def agent_demo_def)
  have ne: "cmd_id (command_demo ''LOCK'') \<noteq> [] \<and> action (command_demo ''LOCK'') \<noteq> []
      \<and> iso_demo (expires_at (command_demo ''LOCK'')) \<noteq> []
      \<and> sign_command mac_demo iso_demo (command_secret agent_demo) (cmd_id (command_demo ''LOCK''))
           (device_id (command_demo ''LOCK'')) (action (command_demo ''LOCK''))
           (expires_at (command_demo ''LOCK'')) \<noteq> []"
    by (simp add: command_demo_def iso_demo_def sign_command_def mac_demo_def)
  have 1: "verify_command mac_demo agent_demo ?signed"
    using t [where c = "command_demo ''LOCK''"] d ne by blast
  have m: "mac_demo (command_secret agent_demo) (signed_text ''c1'' (agent_id agent_demo) ''WIPE'' ''1970-01-01T00:05:00'')
       \<noteq> mac_demo (command_secret agent_demo) (signed_text ''c1'' (agent_id agent_demo) ''LOCK'' ''1970-01-01T00:05:00'')"
    by (simp add: mac_demo_def signed_text_def)
  have f: "?cmd ''id'' = Some (JStr ''c1'') \<and> ?cmd ''action'' = Some (JStr ''WIPE'')
      \<and> ?cmd ''expiresAt'' = Some (JStr ''1970-01-01T00:05:00'')
      \<and> ?cmd ''signature'' = Some (JStr (mac_demo (command_secret agent_demo)
                 (signed_text ''c1'' (agent_id agent_demo) ''LOCK'' ''1970-01-01T00:05:00'')))"
    by (simp add: command_json_def command_demo_def iso_demo_def sign_command_def agent_demo_def
        signed_text_def)
  have n: "(''c1'', ''WIPE'', ''1970-01-01T00:05:00'') \<noteq> (''c1'', ''LOCK'', ''1970-01-01T00:05:00'')"
    by simp
  have 2: "\<not> verify_command mac_demo agent_demo ?cmd"
    using t [where cmd = ?cmd and cid' = "''c1''" and act' = "''WIPE''" and ex' = "''1970-01-01T00:05:00''"
        and cid_s = "''c1''" and act_s = "''LOCK''" and ex_s = "''1970-01-01T00:05:00''"] m f n
    by blast
  have g: "((cmd_demo ''c1'' ''LOCK'')(''signature'' := None)) ''signature'' = None"
    by simp
  have 3: "\<not> verify_command mac_demo agent_demo ((cmd_demo ''c1'' ''LOCK'')(''signature'' := None))"
    using t [where cmd = "(cmd_demo ''c1'' ''LOCK'')(''signature'' := None)"] g by blast
  have q: "cmd_demo ''c1'' ''LOCK'' ''id'' = Some (JStr ''c1'')
      \<and> cmd_demo ''c1'' ''LOCK'' ''action'' = Some (JStr ''LOCK'')
      \<and> cmd_demo ''c1'' ''LOCK'' ''expiresAt'' = Some (JStr ''1970-01-01T00:05:00'')
      \<and> cmd_demo ''c1'' ''LOCK'' ''signature''
          = Some (JStr (mac_demo ''k'' (''c1'' @ ''|dev|'' @ ''LOCK'' @ ''|1970-01-01T00:05:00'')))"
    by (simp add: cmd_demo_def)
  have "verify_command mac_demo agent_demo (cmd_demo ''c1'' ''LOCK'') =
          (''c1'' \<noteq> [] \<and> ''LOCK'' \<noteq> [] \<and> ''1970-01-01T00:05:00'' \<noteq> []
           \<and> mac_demo ''k'' (''c1'' @ ''|dev|'' @ ''LOCK'' @ ''|1970-01-01T00:05:00'') \<noteq> []
           \<and> mac_demo ''k'' (''c1'' @ ''|dev|'' @ ''LOCK'' @ ''|1970-01-01T00:05:00'')
               = mac_demo (command_secret agent_demo)
                   (''c1'' @ ''|'' @ agent_id agent_demo @ ''|'' @ ''LOCK'' @ ''|'' @ ''1970-01-01T00:05:00''))"
    using t [where cmd = "cmd_demo ''c1'' ''LOCK''" and cid = "''c1''" and act = "''LOCK''"
        and ex = "''1970-01-01T00:05:00''"
        and sg = "mac_demo ''k'' (''c1'' @ ''|dev|'' @ ''LOCK'' @ ''|1970-01-01T00:05:00'')"] q
    by blast
  then have 4: "verify_command mac_demo agent_demo (cmd_demo ''c1'' ''LOCK'')"
    by (simp add: mac_demo_def agent_demo_def)
  show ?thesis using d 1 g 3 4 m n 2 by blast
qed

text \<open>
  Claim C5 as stated fails twice. A command that the server signed with an empty action has
  all four fields and the right signature, and is rejected. A command whose action and expiry
  were both altered, moving the separator, carries the signature of the original tuple and is
  accepted.
\<close>

theorem verify_command_counterexample:
  "\<not> verify_command mac_demo agent_demo
       (command_json mac_demo iso_demo (command_secret agent_demo) (command_demo []))
   \<and> dom (command_json mac_demo iso_demo (command_secret agent_demo) (command_demo []))
       = {''id'', ''action'', ''expiresAt'', ''signature''}
   \<and> verify_command mac_demo agent_demo
       [''id'' \<mapsto> JStr ''c1'', ''action'' \<mapsto> JStr ''LOCK'',
        ''expiresAt'' \<mapsto> JStr ''now|1970-01-01T00:05:00'',
        ''signature'' \<mapsto> JStr (sign_command mac_demo iso_demo (command_secret agent_demo)
                                  ''c1'' ''dev'' ''LOCK|now'' 300000000)]"
  by (auto simp add: verify_command_def command_json_def command_demo_def dict_get_def agent_demo_def
      sign_command_def iso_demo_def mac_demo_def)

section \<open>Telemetry ingest and the risk score\<close>

lemma ingest_loop_risk:
  "snd (ingest_loop now uuid4 aid k es (rows, risk)) = foldl (\<lambda>r e. min 100 (r + weight e)) risk es"
  by (induction es arbitrary: k rows risk) simp_all

lemma clamp_fold_le: "risk \<le> 100 \<Longrightarrow> foldl (\<lambda>r e. min 100 (r + weight e)) risk es \<le> (100::int)"
  by (induction es arbitrary: risk) simp_all

lemma clamp_fold_ge:
  "\<forall>e \<in> set es. 0 \<le> weight e \<Longrightarrow> min 100 risk \<le> foldl (\<lambda>r e. min 100 (r + weight e)) risk es"
proof (induction es arbitrary: risk)
  case Nil
  then show ?case by simp
next
  case (Cons e es)
  have "min 100 risk \<le> min 100 (min 100 (risk + weight e))"
    using Cons.prems by (auto simp add: min_def)
  also have "\<dots> \<le> foldl (\<lambda>r e. min 100 (r + weight e)) (min 100 (risk + weight e)) es"
    using Cons.IH [of "min 100 (risk + weight e)"] Cons.prems by simp
  finally show ?case by simp
qed

lemma receive_telemetry_device:
  assumes "devices db (in_agent_id payload) = Some dev"
  shows "\<exists>db'. receive_telemetry now uuid4 payload db = Inr (db', dev_policy dev)
       \<and> commands db' = commands db
       \<and> devices db' = (devices db)(in_agent_id payload \<mapsto>
            dev\<lparr>last_heartbeat := now, dev_status := ''ONLINE'', work_stats := in_work_stats payload,
                risk_score := foldl (\<lambda>r e. min 100 (r + weight e)) (risk_score dev) (in_events payload)\<rparr>)"
proof -
  obtain rows risk where l: "ingest_loop now uuid4 (in_agent_id payload) 0 (in_events payload)
        (security_events db, risk_score dev) = (rows, risk)"
    by (cases "ingest_loop now uuid4 (in_agent_id payload) 0 (in_events payload)
        (security_events db, risk_score dev)") auto
  have "risk = foldl (\<lambda>r e. min 100 (r + weight e)) (risk_score dev) (in_events payload)"
    using ingest_loop_risk [of now uuid4 "in_agent_id payload" 0 "in_events payload"
        "security_events db" "risk_score dev"] l by simp
  then show ?thesis
    using assms l by (simp add: receive_telemetry_def)
qed

lemma receive_telemetry_missing:
  "devices db (in_agent_id payload) = None \<Longrightarrow>
     receive_telemetry now uuid4 payload db = Inl (HTTPException 404)"
  by (simp add: receive_telemetry_def)

lemma handle_scores_bounded:
  assumes "\<forall>d \<in> ran (devices db). risk_score d \<le> 100"
  shows "\<forall>d \<in> ran (devices (handle hmac_hex isoformat secret r db)). risk_score d \<le> 100"
proof (cases r)
  case (Telemetry now uuid4 payload)
  show ?thesis
  proof (cases "devices db (in_agent_id payload)")
    case None
    then show ?thesis
      using assms Telemetry by (simp add: receive_telemetry_missing)
  next
    case (Some dev)
    then have b: "risk_score dev \<le> 100"
      using assms by (auto simp: ran_def)
    from receive_telemetry_device [OF Some, of now uuid4] obtain db' where
      d: "receive_telemetry now uuid4 payload db = Inr (db', dev_policy dev)"
      "devices db' = (devices db)(in_agent_id payload \<mapsto>
            dev\<lparr>last_heartbeat := now, dev_status := ''ONLINE'', work_stats := in_work_stats payload,
                risk_score := foldl (\<lambda>r e. min 100 (r + weight e)) (risk_score dev) (in_events payload)\<rparr>)"
      by blast
    have "\<forall>x \<in> ran (devices db'). risk_score x \<le> 100"
    proof
      fix x assume "x \<in> ran (devices db')"
      then obtain k where k: "devices db' k = Some x" by (auto simp: ran_def)
      show "risk_score x \<le> 100"
      proof (cases "k = in_agent_id payload")
        case True
        then have "x = dev\<lparr>last_heartbeat := now, dev_status := ''ONLINE'',
            work_stats := in_work_stats payload,
            risk_score := foldl (\<lambda>r e. min 100 (r + weight e)) (risk_score dev) (in_events payload)\<rparr>"
          using k d(2) by simp
        then show ?thesis by (simp add: clamp_fold_le [OF b])
      next
        case False
        then have "devices db k = Some x" using k d(2) by simp
        then show ?thesis using assms by (auto simp: ran_def)
      qed
    qed
    then show ?thesis using Telemetry d(1) by simp
  qed
next
  case (Poll now aid)
  then show ?thesis using assms by (simp add: poll_commands_def Let_def)
next
  case (Ack now cid data)
  then show ?thesis using assms by (simp add: ack_command_def)
next
  case (Issue now new_id payload)
  then show ?thesis using assms by (simp add: issue_command_def)
qed

lemma serve_scores_bounded:
  "\<forall>d \<in> ran (devices db). risk_score d \<le> 100 \<Longrightarrow>
     \<forall>d \<in> ran (devices (serve hmac_hex isoformat secret rs db)). risk_score d \<le> 100"
proof (induction rs arbitrary: db)
  case Nil
  then show ?case by simp
next
  case (Cons r rs)
  show ?case
    using Cons.IH [OF handle_scores_bounded [OF Cons.prems]] by simp
qed

text \<open>
  Claim C2. An ingest on a known device adds the weight of each event to the risk score,
  taking the minimum with 100 after each addition. From a score of at most 100 the stored score
  after the ingest is at most 100; the same holds after any sequence of requests, so also after
  repeated ingests of events of weight 100 on a device whose score is 95.
\<close>

theorem risk_score_clamped:
  "(devices db (in_agent_id payload) = Some dev \<and> risk_score dev \<le> 100 \<longrightarrow>
      (\<exists>db' dev'. receive_telemetry now uuid4 payload db = Inr (db', dev_policy dev)
         \<and> devices db' (in_agent_id payload) = Some dev'
         \<and> risk_score dev' = foldl (\<lambda>r e. min 100 (r + weight e)) (risk_score dev) (in_events payload)
         \<and> risk_score dev' \<le> 100))
   \<and> ((\<forall>d \<in> ran (devices db). risk_score d \<le> 100) \<longrightarrow>
        (\<forall>d \<in> ran (devices (serve hmac_hex isoformat secret rs db)). risk_score d \<le> 100))"
proof (intro conjI impI)
  assume a: "devices db (in_agent_id payload) = Some dev \<and> risk_score dev \<le> 100"
  then have d: "devices db (in_agent_id payload) = Some dev" and b: "risk_score dev \<le> 100"
    by simp_all
  from receive_telemetry_device [OF d, of now uuid4] obtain db' where
    r: "receive_telemetry now uuid4 payload db = Inr (db', dev_policy dev)"
    "devices db' = (devices db)(in_agent_id payload \<mapsto>
            dev\<lparr>last_heartbeat := now, dev_status := ''ONLINE'', work_stats := in_work_stats payload,
                risk_score := foldl (\<lambda>r e. min 100 (r + weight e)) (risk_score dev) (in_events payload)\<rparr>)"
    by blast
  show "\<exists>db' dev'. receive_telemetry now uuid4 payload db = Inr (db', dev_policy dev)
         \<and> devices db' (in_agent_id payload) = Some dev'
         \<and> risk_score dev' = foldl (\<lambda>r e. min 100 (r + weight e)) (risk_score dev) (in_events payload)
         \<and> risk_score dev' \<le> 100"
    using r clamp_fold_le [OF b, of "in_events payload"] by simp
next
  assume "\<forall>d \<in> ran (devices db). risk_score d \<le> 100"
  then show "\<forall>d \<in> ran (devices (serve hmac_hex isoformat secret rs db)). risk_score d \<le> 100"
    by (rule serve_scores_bounded)
qed

theorem risk_score_clamped_witness:
  "devices (server_demo 95 []) (in_agent_id (telemetry_demo [100, 100])) = Some (device_demo 95)
   \<and> risk_score (device_demo 95) \<le> 100
   \<and> (case receive_telemetry 7 (\<lambda>k. ''u'') (telemetry_demo [100, 100]) (server_demo 95 []) of
         Inl e \<Rightarrow> None
       | Inr (db', p) \<Rightarrow> map_option risk_score (devices db' ''dev'')) = Some 100
   \<and> map_option risk_score
        (devices (serve mac_demo iso_demo ''k''
                    [Telemetry 7 (\<lambda>k. ''u'') (telemetry_demo [100]),
                     Telemetry 8 (\<lambda>k. ''u'') (telemetry_demo [100, 100])]
                    (server_demo 95 [])) ''dev'') = Some 100"
proof -
  have h: "devices (server_demo 95 []) (in_agent_id (telemetry_demo [100, 100])) = Some (device_demo 95)
      \<and> risk_score (device_demo 95) \<le> 100"
    by (simp add: server_demo_def telemetry_demo_def device_demo_def)
  have r: "ran (devices (server_demo 95 [])) = {device_demo 95}"
    by (simp add: server_demo_def)
  have "\<exists>db' dev'. receive_telemetry 7 (\<lambda>k. ''u'') (telemetry_demo [100, 100]) (server_demo 95 [])
            = Inr (db', dev_policy (device_demo 95))
         \<and> devices db' (in_agent_id (telemetry_demo [100, 100])) = Some dev'
         \<and> risk_score dev' = foldl (\<lambda>r e. min 100 (r + weight e)) (risk_score (device_demo 95))
                                (in_events (telemetry_demo [100, 100]))
         \<and> risk_score dev' \<le> 100"
    using risk_score_clamped [where db = "server_demo 95 []" and payload = "telemetry_demo [100, 100]"
        and dev = "device_demo 95" and now = 7 and ?uuid4.0 = "\<lambda>k. ''u''" and hmac_hex = mac_demo
        and isoformat = iso_demo and secret = "''k''" and rs = "[]"] h
    by blast
  then obtain db' dev' where o:
    "receive_telemetry 7 (\<lambda>k. ''u'') (telemetry_demo [100, 100]) (server_demo 95 [])
            = Inr (db', dev_policy (device_demo 95))"
    "devices db' (in_agent_id (telemetry_demo [100, 100])) = Some dev'"
    "risk_score dev' = foldl (\<lambda>r e. min 100 (r + weight e)) (risk_score (device_demo 95))
                                (in_events (telemetry_demo [100, 100]))"
    by blast
  have "risk_score dev' = 100"
    using o(3) by (simp add: telemetry_demo_def event_demo_def device_demo_def)
  then have e: "(case receive_telemetry 7 (\<lambda>k. ''u'') (telemetry_demo [100, 100]) (server_demo 95 []) of
         Inl e \<Rightarrow> None
       | Inr (db', p) \<Rightarrow> map_option risk_score (devices db' ''dev'')) = Some 100"
    using o(1) o(2) by (simp add: telemetry_demo_def)
  have s: "map_option risk_score
        (devices (serve mac_demo iso_demo ''k''
                    [Telemetry 7 (\<lambda>k. ''u'') (telemetry_demo [100]),
                     Telemetry 8 (\<lambda>k. ''u'') (telemetry_demo [100, 100])]
                    (server_demo 95 [])) ''dev'') = Some 100"
    by (simp add: receive_telemetry_def server_demo_def telemetry_demo_def event_demo_def device_demo_def)
  show ?thesis using h e s by blast
qed

text \<open>
  Claim C3, as the code has it. An ingest whose events all have a weight of at least 0 stores a
  score that is at least the minimum of 100 and the score before; so from a score of at most
  100, which is what this path stores, the score does not decrease.
\<close>

theorem risk_score_monotone:
  "devices db (in_agent_id payload) = Some dev \<and> (\<forall>e \<in> set (in_events payload). 0 \<le> weight e) \<longrightarrow>
     (\<exists>db' dev'. receive_telemetry now uuid4 payload db = Inr (db', dev_policy dev)
        \<and> devices db' (in_agent_id payload) = Some dev'
        \<and> min 100 (risk_score dev) \<le> risk_score dev'
        \<and> (risk_score dev \<le> 100 \<longrightarrow> risk_score dev \<le> risk_score dev'))"
proof
  assume a: "devices db (in_agent_id payload) = Some dev \<and> (\<forall>e \<in> set (in_events payload). 0 \<le> weight e)"
  then have d: "devices db (in_agent_id payload) = Some dev"
    and w: "\<forall>e \<in> set (in_events payload). 0 \<le> weight e"
    by simp_all
  from receive_telemetry_device [OF d, of now uuid4] obtain db' where
    r: "receive_telemetry now uuid4 payload db = Inr (db', dev_policy dev)"
    "devices db' = (devices db)(in_agent_id payload \<mapsto>
            dev\<lparr>last_heartbeat := now, dev_status := ''ONLINE'', work_stats := in_work_stats payload,
                risk_score := foldl (\<lambda>r e. min 100 (r + weight e)) (risk_score dev) (in_events payload)\<rparr>)"
    by blast
  show "\<exists>db' dev'. receive_telemetry now uuid4 payload db = Inr (db', dev_policy dev)
        \<and> devices db' (in_agent_id payload) = Some dev'
        \<and> min 100 (risk_score dev) \<le> risk_score dev'
        \<and> (risk_score dev \<le> 100 \<longrightarrow> risk_score dev \<le> risk_score dev')"
    using r clamp_fold_ge [OF w, of "risk_score dev"] by auto
qed

theorem risk_score_monotone_witness:
  "devices (server_demo 50 []) (in_agent_id (telemetry_demo [15, 0, 45])) = Some (device_demo 50)
   \<and> list_all (\<lambda>e. 0 \<le> weight e) (in_events (telemetry_demo [15, 0, 45]))
   \<and> (case receive_telemetry 7 (\<lambda>k. ''u'') (telemetry_demo [15, 0, 45]) (server_demo 50 []) of
         Inl e \<Rightarrow> None
       | Inr (db', p) \<Rightarrow> map_option risk_score (devices db' ''dev'')) = Some 100
   \<and> risk_score (device_demo 50) = 50"
proof -
  have h: "devices (server_demo 50 []) (in_agent_id (telemetry_demo [15, 0, 45])) = Some (device_demo 50)"
    by (simp add: server_demo_def telemetry_demo_def)
  have w: "\<forall>e \<in> set (in_events (telemetry_demo [15, 0, 45])). 0 \<le> weight e"
    by (simp add: telemetry_demo_def event_demo_def)
  have e: "(case receive_telemetry 7 (\<lambda>k. ''u'') (telemetry_demo [15, 0, 45]) (server_demo 50 []) of
         Inl e \<Rightarrow> None
       | Inr (db', p) \<Rightarrow> map_option risk_score (devices db' ''dev'')) = Some 100"
    using risk_score_monotone [of "server_demo 50 []" "telemetry_demo [15, 0, 45]" "device_demo 50"
        7 "\<lambda>k. ''u''"] h w
    by (simp add: receive_telemetry_def server_demo_def telemetry_demo_def event_demo_def device_demo_def)
  show ?thesis using h w e by (simp add: list_all_iff device_demo_def)
qed

text \<open>
  Claim C3 as stated fails: an event of weight -10, which the endpoint accepts, takes the
  score of the device from 50 to 40.
\<close>

theorem risk_score_decreases_counterexample:
  "map_option risk_score (devices (server_demo 50 []) ''dev'') = Some 50
   \<and> (case receive_telemetry 7 (\<lambda>k. ''u'') (telemetry_demo [- 10]) (server_demo 50 []) of
         Inl e \<Rightarrow> None
       | Inr (db', p) \<Rightarrow> map_option risk_score (devices db' ''dev'')) = Some 40"
  by (simp add: receive_telemetry_def server_demo_def telemetry_demo_def event_demo_def device_demo_def)

section \<open>The lifecycle of a command\<close>

lemma handle_telemetry_commands:
  "commands (handle hmac_hex isoformat secret (Telemetry now uuid4 payload) db) = commands db"
proof (cases "devices db (in_agent_id payload)")
  case None
  then show ?thesis by (simp add: receive_telemetry_missing)
next
  case (Some dev)
  from receive_telemetry_device [OF Some, of now uuid4] show ?thesis by auto
qed

lemma poll_commands_state:
  "commands (fst (poll_commands hmac_hex isoformat secret now aid db))
     = map (\<lambda>c. if selected now aid c then c\<lparr>status := ''SENT''\<rparr> else c) (commands db)"
  by (simp add: poll_commands_def Let_def)

lemma poll_commands_results:
  "snd (poll_commands hmac_hex isoformat secret now aid db)
     = map (command_json hmac_hex isoformat secret) (filter (selected now aid) (commands db))"
  by (simp add: poll_commands_def Let_def)

lemma poll_commands_ids:
  "map cmd_id (commands (fst (poll_commands hmac_hex isoformat secret now aid db))) = map cmd_id (commands db)"
  by (simp add: poll_commands_state o_def if_distrib cong: if_cong)

lemma update_first_ids:
  "(\<And>c. cmd_id (f c) = cmd_id c) \<Longrightarrow> map cmd_id (update_first cid f cs) = map cmd_id cs"
  by (induction cs) simp_all



lemma update_first_mem:
  "c' \<in> set (update_first cid f cs) \<Longrightarrow> c' \<in> set cs \<or> (\<exists>c \<in> set cs. cmd_id c = cid \<and> c' = f c)"
  by (induction cs) (auto split: if_splits)







section \<open>Delivery by the poll endpoint\<close>

lemma command_json_id: "command_json hmac_hex isoformat secret c ''id'' = Some (JStr (cmd_id c))"
  by (simp add: command_json_def)

lemma same_id_same_command:
  "distinct (map cmd_id cs) \<Longrightarrow> c \<in> set cs \<Longrightarrow> c' \<in> set cs \<Longrightarrow> cmd_id c = cmd_id c' \<Longrightarrow> c = c'"
  by (simp add: distinct_map inj_on_def)

lemma poll_delivers:
  assumes d: "distinct (map cmd_id (commands db))"
    and c: "c \<in> set (commands db)" "selected now aid c"
  shows "delivered (cmd_id c) (fst (poll_commands hmac_hex isoformat secret now aid db))"
proof -
  have 1: "distinct (map cmd_id (commands (fst (poll_commands hmac_hex isoformat secret now aid db))))"
    using d by (simp only: poll_commands_ids)
  have 2: "cmd_id c \<in> set (map cmd_id (commands (fst (poll_commands hmac_hex isoformat secret now aid db))))"
    using c(1) by (simp only: poll_commands_ids) simp
  have 3: "\<forall>c' \<in> set (commands (fst (poll_commands hmac_hex isoformat secret now aid db))).
        cmd_id c' = cmd_id c \<longrightarrow> status c' \<noteq> ''PENDING''"
  proof (intro ballI impI)
    fix c' assume m: "c' \<in> set (commands (fst (poll_commands hmac_hex isoformat secret now aid db)))"
      and e: "cmd_id c' = cmd_id c"
    from m obtain b where b: "b \<in> set (commands db)"
      "c' = (if selected now aid b then b\<lparr>status := ''SENT''\<rparr> else b)"
      by (auto simp add: poll_commands_state)
    then have "cmd_id b = cmd_id c" using e by (simp split: if_splits)
    then have "b = c" using same_id_same_command [OF d b(1) c(1)] by simp
    then show "status c' \<noteq> ''PENDING''" using b(2) c(2) by simp
  qed
  show ?thesis unfolding delivered_def using 1 2 3 by blast
qed

lemma handle_delivered:
  assumes d: "delivered cid db" and n: "\<not> reissues cid q"
  shows "delivered cid (handle hmac_hex isoformat secret q db)"
proof (cases q)
  case (Telemetry now uuid4 payload)
  then show ?thesis using d by (simp add: delivered_def handle_telemetry_commands del: handle.simps)
next
  case (Poll now aid)
  have "\<forall>c' \<in> set (commands (fst (poll_commands hmac_hex isoformat secret now aid db))).
        cmd_id c' = cid \<longrightarrow> status c' \<noteq> ''PENDING''"
    using d by (auto simp add: poll_commands_state delivered_def)
  then show ?thesis
    using d Poll unfolding delivered_def by (simp only: handle.simps poll_commands_ids)
next
  case (Ack now cid' data)
  let ?f = "\<lambda>c. c\<lparr>status := (case data ''status'' of None \<Rightarrow> ''EXECUTED'' | Some v \<Rightarrow> v),
                    executed_at := Some now\<rparr>"
  have ids: "map cmd_id (update_first cid' ?f (commands db)) = map cmd_id (commands db)"
    by (rule update_first_ids) simp
  have st: "\<forall>c' \<in> set (update_first cid' ?f (commands db)). cmd_id c' = cid \<longrightarrow> status c' \<noteq> ''PENDING''"
  proof (intro ballI impI)
    fix c' assume m: "c' \<in> set (update_first cid' ?f (commands db))" and e: "cmd_id c' = cid"
    from update_first_mem [OF m] show "status c' \<noteq> ''PENDING''"
    proof
      assume "c' \<in> set (commands db)"
      then show ?thesis using d e by (simp add: delivered_def)
    next
      assume "\<exists>c \<in> set (commands db). cmd_id c = cid' \<and> c' = ?f c"
      then obtain c where c: "cmd_id c = cid'" "c' = ?f c" by blast
      then have "cid' = cid" using e by simp
      then have "data ''status'' \<noteq> Some ''PENDING''" using n Ack by simp
      then show ?thesis using c(2) by (simp split: option.splits)
    qed
  qed
  show ?thesis
    using d Ack ids st by (simp add: delivered_def ack_command_def)
next
  case (Issue now new_id payload)
  show ?thesis
  proof (cases "new_id \<in> set (map cmd_id (commands db))")
    case True
    then show ?thesis using d Issue by (simp add: issue_command_def)
  next
    case False
    then have "new_id \<noteq> cid" using d by (auto simp add: delivered_def)
    then show ?thesis using d Issue False by (auto simp add: issue_command_def delivered_def)
  qed
qed

lemma serve_delivered:
  "delivered cid db \<Longrightarrow> \<forall>q \<in> set rs. \<not> reissues cid q \<Longrightarrow>
     delivered cid (serve hmac_hex isoformat secret rs db)"
proof (induction rs arbitrary: db)
  case Nil
  then show ?case by simp
next
  case (Cons q rs)
  have "delivered cid (handle hmac_hex isoformat secret q db)"
    using handle_delivered [of cid db q] Cons.prems by simp
  from Cons.IH [OF this] Cons.prems(2) show ?case by simp
qed

lemma delivered_not_polled:
  assumes "delivered cid db" and "r \<in> set (snd (poll_commands hmac_hex isoformat secret now aid db))"
  shows "r ''id'' \<noteq> Some (JStr cid)"
proof
  assume e: "r ''id'' = Some (JStr cid)"
  from assms(2) obtain c where c: "c \<in> set (commands db)" "selected now aid c"
    "r = command_json hmac_hex isoformat secret c"
    by (auto simp add: poll_commands_results)
  then have "cmd_id c = cid" using e by (simp add: command_json_id)
  then have "status c \<noteq> ''PENDING''" using assms(1) c(1) by (simp add: delivered_def)
  then show False using c(2) by (simp add: selected_def)
qed

text \<open>
  Claim C8, as the code has it. Every command that a poll returns is stored for the requested
  device, is \<^verbatim>\<open>PENDING\<close>, expires strictly after the time of the poll, and is stored as
  \<^verbatim>\<open>SENT\<close> afterwards. With ids as primary keys, a command whose expiry is not in the future
  is not returned, and a returned command is not returned by any later poll, whatever requests
  come in between, unless one of them is an ack for this command that writes \<^verbatim>\<open>PENDING\<close>
  back.
\<close>

theorem poll_commands_delivers_once:
  "(\<forall>r \<in> set (snd (poll_commands hmac_hex isoformat secret now aid db)).
      \<exists>c \<in> set (commands db).
        r = command_json hmac_hex isoformat secret c
        \<and> device_id c = aid \<and> status c = ''PENDING'' \<and> now < expires_at c
        \<and> c\<lparr>status := ''SENT''\<rparr> \<in> set (commands (fst (poll_commands hmac_hex isoformat secret now aid db))))
   \<and> (distinct (map cmd_id (commands db)) \<longrightarrow>
        (\<forall>c \<in> set (commands db). expires_at c \<le> now \<longrightarrow>
           (\<forall>r \<in> set (snd (poll_commands hmac_hex isoformat secret now aid db)).
              r ''id'' \<noteq> Some (JStr (cmd_id c)))))
   \<and> (distinct (map cmd_id (commands db)) \<and> (\<forall>q \<in> set rs. \<not> reissues cid q)
        \<and> (\<exists>r \<in> set (snd (poll_commands hmac_hex isoformat secret now aid db)). r ''id'' = Some (JStr cid))
        \<longrightarrow>
        (\<forall>r' \<in> set (snd (poll_commands hmac_hex isoformat secret now' aid'
                            (serve hmac_hex isoformat secret rs
                               (fst (poll_commands hmac_hex isoformat secret now aid db))))).
           r' ''id'' \<noteq> Some (JStr cid)))"
proof (intro conjI impI ballI)
  fix r assume "r \<in> set (snd (poll_commands hmac_hex isoformat secret now aid db))"
  then obtain c where c: "c \<in> set (commands db)" "selected now aid c"
    "r = command_json hmac_hex isoformat secret c"
    by (auto simp add: poll_commands_results)
  have "c\<lparr>status := ''SENT''\<rparr> \<in> set (commands (fst (poll_commands hmac_hex isoformat secret now aid db)))"
    using c(1) c(2) by (force simp add: poll_commands_state)
  then show "\<exists>c \<in> set (commands db).
        r = command_json hmac_hex isoformat secret c
        \<and> device_id c = aid \<and> status c = ''PENDING'' \<and> now < expires_at c
        \<and> c\<lparr>status := ''SENT''\<rparr> \<in> set (commands (fst (poll_commands hmac_hex isoformat secret now aid db)))"
    using c by (auto simp add: selected_def)
next
  fix c r
  assume d: "distinct (map cmd_id (commands db))" and c: "c \<in> set (commands db)"
    and e: "expires_at c \<le> now"
    and r: "r \<in> set (snd (poll_commands hmac_hex isoformat secret now aid db))"
  show "r ''id'' \<noteq> Some (JStr (cmd_id c))"
  proof
    assume i: "r ''id'' = Some (JStr (cmd_id c))"
    from r obtain b where b: "b \<in> set (commands db)" "selected now aid b"
      "r = command_json hmac_hex isoformat secret b"
      by (auto simp add: poll_commands_results)
    then have "cmd_id b = cmd_id c" using i by (simp add: command_json_id)
    then have "b = c" using same_id_same_command [OF d b(1) c] by simp
    then show False using b(2) e by (simp add: selected_def)
  qed
next
  fix r'
  assume a: "distinct (map cmd_id (commands db)) \<and> (\<forall>q \<in> set rs. \<not> reissues cid q)
        \<and> (\<exists>r \<in> set (snd (poll_commands hmac_hex isoformat secret now aid db)). r ''id'' = Some (JStr cid))"
    and r': "r' \<in> set (snd (poll_commands hmac_hex isoformat secret now' aid'
                            (serve hmac_hex isoformat secret rs
                               (fst (poll_commands hmac_hex isoformat secret now aid db)))))"
  from a obtain r where r: "r \<in> set (snd (poll_commands hmac_hex isoformat secret now aid db))"
    "r ''id'' = Some (JStr cid)" by blast
  from r(1) obtain c where c: "c \<in> set (commands db)" "selected now aid c"
    "r = command_json hmac_hex isoformat secret c"
    by (auto simp add: poll_commands_results)
  have "cmd_id c = cid" using r(2) c(3) by (simp add: command_json_id)
  then have "delivered cid (fst (poll_commands hmac_hex isoformat secret now aid db))"
    using poll_delivers [of db c now aid hmac_hex isoformat secret] a c by blast
  then have "delivered cid (serve hmac_hex isoformat secret rs
                               (fst (poll_commands hmac_hex isoformat secret now aid db)))"
    using serve_delivered a by blast
  then show "r' ''id'' \<noteq> Some (JStr cid)"
    using delivered_not_polled r' by blast
qed

theorem poll_commands_delivers_once_witness:
  "distinct (map cmd_id (commands (server_demo 0
       [stored_demo ''c0'' ''PENDING'' 0, stored_demo ''c1'' ''PENDING'' 300000000])))
   \<and> expires_at (stored_demo ''c0'' ''PENDING'' 0) \<le> 0
   \<and> map (\<lambda>r. r ''id'') (snd (poll_commands mac_demo iso_demo ''k'' 0 ''dev'' (server_demo 0
       [stored_demo ''c0'' ''PENDING'' 0, stored_demo ''c1'' ''PENDING'' 300000000])))
       = [Some (JStr ''c1'')]
   \<and> list_all (\<lambda>q. \<not> reissues ''c1'' q)
       [Ack 0 ''c1'' [''status'' \<mapsto> ''EXECUTED''],
        Issue 0 ''c2'' \<lparr>deviceId = ''dev'', in_action = ''LOCK''\<rparr> :: unit request]
   \<and> map (\<lambda>r. r ''id'') (snd (poll_commands mac_demo iso_demo ''k'' 1 ''dev''
        (serve mac_demo iso_demo ''k''
           [Ack 0 ''c1'' [''status'' \<mapsto> ''EXECUTED''],
            Issue 0 ''c2'' \<lparr>deviceId = ''dev'', in_action = ''LOCK''\<rparr>]
           (fst (poll_commands mac_demo iso_demo ''k'' 0 ''dev'' (server_demo 0
              [stored_demo ''c0'' ''PENDING'' 0, stored_demo ''c1'' ''PENDING'' 300000000]))))))
       = [Some (JStr ''c2'')]
   \<and> list_all (\<lambda>r'. r' ''id'' \<noteq> Some (JStr ''c1'')) (snd (poll_commands mac_demo iso_demo ''k'' 1 ''dev''
        (serve mac_demo iso_demo ''k''
           [Ack 0 ''c1'' [''status'' \<mapsto> ''EXECUTED''],
            Issue 0 ''c2'' \<lparr>deviceId = ''dev'', in_action = ''LOCK''\<rparr>]
           (fst (poll_commands mac_demo iso_demo ''k'' 0 ''dev'' (server_demo 0
              [stored_demo ''c0'' ''PENDING'' 0, stored_demo ''c1'' ''PENDING'' 300000000]))))))"
proof -
  let ?db = "server_demo 0 [stored_demo ''c0'' ''PENDING'' 0, stored_demo ''c1'' ''PENDING'' 300000000]"
  let ?rs = "[Ack 0 ''c1'' [''status'' \<mapsto> ''EXECUTED''],
        Issue 0 ''c2'' \<lparr>deviceId = ''dev'', in_action = ''LOCK''\<rparr>] :: unit request list"
  let ?first = "poll_commands mac_demo iso_demo ''k'' 0 ''dev'' ?db"
  let ?later = "poll_commands mac_demo iso_demo ''k'' 1 ''dev'' (serve mac_demo iso_demo ''k'' ?rs (fst ?first))"
  have d: "distinct (map cmd_id (commands ?db))"
    by (simp add: server_demo_def stored_demo_def)
  have e: "expires_at (stored_demo ''c0'' ''PENDING'' 0) \<le> 0"
    by (simp add: stored_demo_def)
  have p: "map (\<lambda>r. r ''id'') (snd ?first) = [Some (JStr ''c1'')]"
    by (simp add: poll_commands_def selected_def server_demo_def stored_demo_def command_json_def)
  have n: "\<forall>q \<in> set ?rs. \<not> reissues ''c1'' q"
    by simp
  have l: "map (\<lambda>r. r ''id'') (snd ?later) = [Some (JStr ''c2'')]"
    by (simp add: poll_commands_def selected_def server_demo_def stored_demo_def command_json_def
        ack_command_def issue_command_def)
  have x: "\<exists>r \<in> set (snd ?first). r ''id'' = Some (JStr ''c1'')"
  proof -
    have "Some (JStr ''c1'') \<in> set (map (\<lambda>r. r ''id'') (snd ?first))"
      unfolding p by simp
    then show ?thesis by auto
  qed
  have "\<forall>r' \<in> set (snd ?later). r' ''id'' \<noteq> Some (JStr ''c1'')"
    using poll_commands_delivers_once [where hmac_hex = mac_demo and isoformat = iso_demo
        and secret = "''k''" and now = 0 and aid = "''dev''" and db = ?db and rs = ?rs
        and cid = "''c1''" and now' = 1 and aid' = "''dev''"] d n x
    by blast
  then have a: "list_all (\<lambda>r'. r' ''id'' \<noteq> Some (JStr ''c1'')) (snd ?later)"
    by (simp add: list_all_iff)
  have n': "list_all (\<lambda>q. \<not> reissues ''c1'' q) ?rs"
    by simp
  show ?thesis using d e p n' l a by blast
qed

text \<open>
  Claim C8 as stated fails: a command returned by a poll is returned again by a later poll for
  the same device after an ack for it with the status \<^verbatim>\<open>PENDING\<close>.
\<close>

theorem poll_commands_redelivery_counterexample:
  "map (\<lambda>r. r ''id'') (snd (poll_commands mac_demo iso_demo ''k'' 1 ''dev''
        (server_demo 0 [stored_demo ''c1'' ''PENDING'' 300000000])))
     = [Some (JStr ''c1'')]
   \<and> map (\<lambda>r. r ''id'') (snd (poll_commands mac_demo iso_demo ''k'' 3 ''dev''
        (ack_command 2 ''c1'' [''status'' \<mapsto> ''PENDING'']
           (fst (poll_commands mac_demo iso_demo ''k'' 1 ''dev''
              (server_demo 0 [stored_demo ''c1'' ''PENDING'' 300000000]))))))
     = [Some (JStr ''c1'')]"
  by (simp add: poll_commands_def selected_def server_demo_def stored_demo_def command_json_def
      ack_command_def)

end
